theory Spec2Isabelle
  imports Complex_Main "HOL-Library.Sublist" "HOL-Library.Log_Nat"
begin

section \<open>Values of the host language\<close>

text \<open>
  The plugin is TypeScript running on Node. Its numbers are IEEE 754 binary64 values; a
  finite one is represented here by its exact value, a rational. Thresholds come from the
  user's configuration and are finite. An option that was not configured is
  \<open>undefined\<close>, modelled by \<open>None\<close>. A \<open>Date\<close> is the number of milliseconds
  since the epoch.
\<close>

type_synonym number = rat
type_synonym date = nat
type_synonym handle = nat

text \<open>\<open>v && ...\<close> on an optional number: \<open>undefined\<close> and \<open>0\<close> are falsy.\<close>

definition truthy :: "number option \<Rightarrow> bool" where
  "truthy v = (case v of None \<Rightarrow> False | Some x \<Rightarrow> x \<noteq> 0)"

text \<open>\<open>x > v\<close> where \<open>v\<close> may be \<open>undefined\<close>: the comparison with \<open>undefined\<close> is false.\<close>

definition js_gt :: "number \<Rightarrow> number option \<Rightarrow> bool" where
  "js_gt x v = (case v of None \<Rightarrow> False | Some y \<Rightarrow> y < x)"

text \<open>A destructuring default \<open>{X = d} = options\<close>.\<close>

definition orDefault :: "'a \<Rightarrow> 'a option \<Rightarrow> 'a" where
  "orDefault d v = (case v of None \<Rightarrow> d | Some x \<Rightarrow> x)"

subsection \<open>Binary64 arithmetic\<close>

text \<open>
  \<open>ilog2 x\<close> is the binary exponent of a positive rational: the \<open>k\<close> with
  \<open>2^k \<le> x < 2^(k+1)\<close>. \<open>fl\<close> rounds a rational to the nearest number with a 53-bit
  significand, ties to the even significand, which is how every binary64 operation
  rounds its exact result. Overflow and subnormal numbers are outside the range of the
  byte counts and quotients of this program and are not modelled.
\<close>

definition ilog2 :: "rat \<Rightarrow> int" where
  "ilog2 x = (if 1 \<le> x then bitlen \<lfloor>x\<rfloor> - 1 else - bitlen (\<lceil>1 / x\<rceil> - 1))"

definition roundTiesToEven :: "rat \<Rightarrow> int" where
  "roundTiesToEven r =
     (let f = \<lfloor>r\<rfloor>; d = r - of_int f
      in if d < 1 / 2 then f else if 1 / 2 < d then f + 1 else if even f then f else f + 1)"

definition fl :: "rat \<Rightarrow> number" where
  "fl x = (if x = 0 then 0
           else let u = 2 powi (ilog2 \<bar>x\<bar> - 52)
                in of_int (roundTiesToEven (x / u)) * u)"

text \<open>The operator \<open>/\<close> on numbers.\<close>

definition js_div :: "number \<Rightarrow> number \<Rightarrow> number" where
  "js_div x y = fl (x / y)"

text \<open>
  \<open>x.toFixed(2)\<close> prints \<open>n / 100\<close> in decimal, where \<open>n\<close> is the integer for which
  \<open>n / 100 - x\<close> is closest to zero, the larger such \<open>n\<close> if there are two; a negative
  \<open>x\<close> is printed as the negation of \<open>(-x).toFixed(2)\<close>. The string is represented by
  \<open>n\<close>. \<open>Number\<close> of that string is the binary64 number nearest to \<open>n / 100\<close>.
  (From \<open>10^21\<close> on \<open>toFixed\<close> prints in exponent notation; a quotient of a byte count
  does not get there.)
\<close>

definition toFixed2 :: "number \<Rightarrow> int" where
  "toFixed2 x = (if 0 \<le> x then \<lfloor>x * 100 + 1 / 2\<rfloor> else - \<lfloor>- x * 100 + 1 / 2\<rfloor>)"

definition Number2 :: "int \<Rightarrow> number" where
  "Number2 n = fl (of_int n / 100)"

text \<open>
  \<open>toMB(bytes) = Number((bytes / 1000 / 1000).toFixed(2))\<close>. The byte counts come from
  \<open>process.memoryUsage.rss()\<close> and from the folder-size probe: integers, which a number
  holds exactly below \<open>2^53\<close>.
\<close>

definition toMB :: "nat \<Rightarrow> number" where
  "toMB bytes = Number2 (toFixed2 (js_div (js_div (of_nat bytes) 1000) 1000))"

text \<open>
  The reading of "rounded to two decimal places" that the conversion is compared with:
  the exact quotient, rounded half up to hundredths, as a binary64 number.
\<close>

definition round2 :: "rat \<Rightarrow> number" where
  "round2 q = Number2 \<lfloor>q * 100 + 1 / 2\<rfloor>"

definition round2_even :: "rat \<Rightarrow> number" where
  "round2_even q = Number2 (roundTiesToEven (q * 100))"

section \<open>Messages\<close>

text \<open>
  A message is a template literal: literal text and the substituted values, in order.
  \<open>render\<close> is the string the template evaluates to.
\<close>

datatype piece = Lit string | Num number | Undefined | DateV date

type_synonym message = "piece list"

definition opt :: "number option \<Rightarrow> piece" where
  "opt v = (case v of None \<Rightarrow> Undefined | Some x \<Rightarrow> Num x)"

definition WARNING_ABOVE_ERROR_TXT :: message where
  "WARNING_ABOVE_ERROR_TXT =
     [Lit ''\<newline> MEMORY_WARNING_MAX_SIZE value should be lower than  MEMORY_ERROR_MAX_SIZE'']"

definition MEMORY_CONSUMPTION_TXT :: "number \<Rightarrow> date \<Rightarrow> message" where
  "MEMORY_CONSUMPTION_TXT maxMemoryConsumption dateMax =
     [Lit ''\<newline>Max memory consumption: '', Num maxMemoryConsumption, Lit ''MB at '',
      DateV dateMax, Lit ''\<newline>'']"

text \<open>The two memory texts read the clock (\<open>new Date()\<close>) when they are built.\<close>

definition WARNING_MEMORY_CONSUMPTION_TXT :: "date \<Rightarrow> number \<Rightarrow> number option \<Rightarrow> message" where
  "WARNING_MEMORY_CONSUMPTION_TXT now memUsage limit =
     [Lit ''\<newline>MEMORY_WARNING_MAX_SIZE option has been reached, memory used is '',
      Num memUsage, Lit ''MB/'', opt limit, Lit ''MB at '', DateV now, Lit ''\<newline>'']"

definition ERROR_MEMORY_CONSUMPTION_TXT :: "date \<Rightarrow> number \<Rightarrow> number option \<Rightarrow> message" where
  "ERROR_MEMORY_CONSUMPTION_TXT now memUsage limit =
     [Lit ''\<newline>MEMORY_ERROR_MAX_SIZE option has been reached, memory used is '',
      Num memUsage, Lit ''/'', opt limit, Lit '' at '', DateV now, Lit '', killing vite\<newline>'']"

definition ERROR_NODE_MODULE_SIZE_TXT :: "number \<Rightarrow> number option \<Rightarrow> message" where
  "ERROR_NODE_MODULE_SIZE_TXT nodeModuleMB limit =
     [Lit ''\<newline>Node modules deps size is about '', Num nodeModuleMB, Lit ''MB exedeed '',
      opt limit, Lit ''MB\<newline>'']"

definition INFO_NODE_MODULE_SIZE_TXT :: "number \<Rightarrow> number option \<Rightarrow> message" where
  "INFO_NODE_MODULE_SIZE_TXT nodeModuleMB limit =
     [Lit ''\<newline>Node modules deps size is about '', Num nodeModuleMB, Lit ''MB, limit is '',
      opt limit, Lit ''MB\<newline>'']"

definition ERROR_NODE_MODULE_NB_TXT :: "number \<Rightarrow> number option \<Rightarrow> message" where
  "ERROR_NODE_MODULE_NB_TXT nbOfNodeModulesDeps limit =
     [Lit ''\<newline>Too many node modules installed, '', Num nbOfNodeModulesDeps, Lit ''/'',
      opt limit, Lit '' did you add some ?\<newline>'']"

definition INFO_NODE_MODULE_NB_TXT :: "number \<Rightarrow> number option \<Rightarrow> message" where
  "INFO_NODE_MODULE_NB_TXT nbOfNodeModulesDeps limit =
     [Lit ''\<newline>Nb of node modules installed is, '', Num nbOfNodeModulesDeps, Lit ''/'',
      opt limit, Lit '' (max)\<newline>'']"

definition ERROR_BUNDLE_SIZE_TXT :: "number \<Rightarrow> number option \<Rightarrow> message" where
  "ERROR_BUNDLE_SIZE_TXT bundleMB limit =
     [Lit ''\<newline>Bundle size is about '', Num bundleMB, Lit ''MB exedeed '', opt limit,
      Lit ''MB\<newline>'']"

definition INFO_BUNDLE_SIZE_TXT :: "number \<Rightarrow> number option \<Rightarrow> message" where
  "INFO_BUNDLE_SIZE_TXT bundleMB limit =
     [Lit ''\<newline>Bundle size is about '', Num bundleMB, Lit ''MB, limit is '', opt limit,
      Lit ''MB\<newline>'']"

subsection \<open>Rendering\<close>

text \<open>
  An integer below \<open>10^21\<close> is printed in decimal. The digits of any other number
  (the shortest decimal that reads back as the same binary64 value) and the text of a date
  are left to the host, \<open>numStr\<close> and \<open>dateStr\<close>.
\<close>

record host =
  numStr :: "number \<Rightarrow> string"
  dateStr :: "date \<Rightarrow> string"

function decimal :: "nat \<Rightarrow> string" where
  "decimal n = (if n < 10 then [''0123456789'' ! n]
                else decimal (n div 10) @ [''0123456789'' ! (n mod 10)])"
  by pat_completeness auto
termination
  by (relation "measure id") auto

declare decimal.simps [simp del]

definition NumberToString :: "host \<Rightarrow> number \<Rightarrow> string" where
  "NumberToString h x =
     (if of_int \<lfloor>x\<rfloor> = x \<and> \<bar>x\<bar> < 10 ^ 21
      then (if x < 0 then ''-'' else '''') @ decimal (nat \<bar>\<lfloor>x\<rfloor>\<bar>)
      else numStr h x)"

fun render_piece :: "host \<Rightarrow> piece \<Rightarrow> string" where
  "render_piece h (Lit s) = s"
| "render_piece h (Num x) = NumberToString h x"
| "render_piece h Undefined = ''undefined''"
| "render_piece h (DateV d) = dateStr h d"

definition render :: "host \<Rightarrow> message \<Rightarrow> string" where
  "render h m = concat (map (render_piece h) m)"

text \<open>
  A message contains a value when the value is substituted into its template, and so its
  digits are part of the rendered string.
\<close>

definition contains_value :: "host \<Rightarrow> message \<Rightarrow> number \<Rightarrow> bool" where
  "contains_value h msg x = (Num x \<in> set msg \<and> sublist (NumberToString h x) (render h msg))"

section \<open>Effects\<close>

text \<open>
  What the plugin does to the outside, in program order: a publication on the exported
  \<open>subject\<close>, a console call with its colour, \<open>process.exit\<close>, the timer calls, a call of
  the debounced \<open>warningMemoryLimit\<close>, the import of the manifest and a folder-size probe.
\<close>

datatype checksObservables = Error message | Warning message | Info message

datatype console_type = ConsoleLog | ConsoleError

datatype Color = Red | BgYellow | Green

datatype effect =
    Next checksObservables
  | Console console_type Color message
  | Exit int
  | SetInterval handle "number option" "number option" "number option"
  | ClearInterval "handle option"
  | Debounced number "number option"
  | Import string string
  | FastFolderSize string

text \<open>The outcomes published by a run, and whether it ends the process.\<close>

fun outcomes :: "effect list \<Rightarrow> checksObservables list" where
  "outcomes [] = []"
| "outcomes (Next c # es) = c # outcomes es"
| "outcomes (e # es) = outcomes es"

fun exit_codes :: "effect list \<Rightarrow> int list" where
  "exit_codes [] = []"
| "exit_codes (Exit c # es) = c # exit_codes es"
| "exit_codes (e # es) = exit_codes es"

subsection \<open>Logging\<close>

text \<open>
  \<open>colorizedLog\<close> prints only when \<open>process.env.MONITORING_LOG_ENABLED\<close>, a string or
  \<open>undefined\<close>, is truthy: a non-empty string.
\<close>

definition colorizedLog ::
  "string option \<Rightarrow> Color \<Rightarrow> console_type \<Rightarrow> message \<Rightarrow> effect list" where
  "colorizedLog env colorFn type txt =
     (case env of
        None \<Rightarrow> []
      | Some s \<Rightarrow> if s \<noteq> [] then [Console type colorFn txt] else [])"

definition errorLog :: "string option \<Rightarrow> message \<Rightarrow> effect list" where
  "errorLog env = colorizedLog env Red ConsoleError"

definition warningLog :: "string option \<Rightarrow> message \<Rightarrow> effect list" where
  "warningLog env = colorizedLog env BgYellow ConsoleLog"

definition infoLog :: "string option \<Rightarrow> message \<Rightarrow> effect list" where
  "infoLog env = colorizedLog env Green ConsoleLog"

section \<open>The size checks\<close>

definition checkNodeModulesSize ::
  "string option \<Rightarrow> number option \<Rightarrow> number \<Rightarrow> effect list" where
  "checkNodeModulesSize env limit nodeModuleMB =
     (if truthy limit \<and> js_gt nodeModuleMB limit
      then Next (Error (ERROR_NODE_MODULE_SIZE_TXT nodeModuleMB limit))
           # errorLog env (ERROR_NODE_MODULE_SIZE_TXT nodeModuleMB limit)
      else Next (Info (INFO_NODE_MODULE_SIZE_TXT nodeModuleMB limit))
           # infoLog env (INFO_NODE_MODULE_SIZE_TXT nodeModuleMB limit))"

definition checkBundleSizes ::
  "string option \<Rightarrow> number option \<Rightarrow> number \<Rightarrow> effect list" where
  "checkBundleSizes env limit bundleMB =
     (if truthy limit \<and> js_gt bundleMB limit
      then Next (Error (ERROR_BUNDLE_SIZE_TXT bundleMB limit))
           # errorLog env (ERROR_BUNDLE_SIZE_TXT bundleMB limit)
      else Next (Info (INFO_BUNDLE_SIZE_TXT bundleMB limit))
           # infoLog env (INFO_BUNDLE_SIZE_TXT bundleMB limit))"

section \<open>The dependency count\<close>

text \<open>
  The imported manifest: two optional objects from dependency name to version. An object
  is the list of its properties, \<open>Object.keys\<close> their names. \<open>None\<close> for the manifest
  is an import that fails.
\<close>

type_synonym object = "(string \<times> string) list"

record packageJson =
  dependencies :: "object option"
  devDependencies :: "object option"

definition Object_keys :: "object \<Rightarrow> string list" where
  "Object_keys obj = map fst obj"

definition nbOfNodeModulesDeps :: "packageJson \<Rightarrow> nat" where
  "nbOfNodeModulesDeps p =
     length (Object_keys (orDefault [] (dependencies p)))
     + length (Object_keys (orDefault [] (devDependencies p)))"

datatype promise = Fulfilled | Rejected

definition checkNbOfNodeModulesDeps ::
  "string option \<Rightarrow> number option \<Rightarrow> string \<Rightarrow> packageJson option \<Rightarrow> effect list \<times> promise" where
  "checkNbOfNodeModulesDeps env limit appRoot manifest =
     (if \<not> truthy limit then ([], Fulfilled)
      else case manifest of
        None \<Rightarrow> ([Import appRoot ''./package.json''], Rejected)
      | Some p \<Rightarrow>
          (let nb = of_nat (nbOfNodeModulesDeps p)
           in (Import appRoot ''./package.json''
               # (if js_gt nb limit
                  then Next (Error (ERROR_NODE_MODULE_NB_TXT nb limit))
                       # errorLog env (ERROR_NODE_MODULE_NB_TXT nb limit)
                  else Next (Info (INFO_NODE_MODULE_NB_TXT nb limit))
                       # infoLog env (INFO_NODE_MODULE_NB_TXT nb limit)),
               Fulfilled)))"

section \<open>The memory monitor\<close>

record infos =
  interval :: "handle option"
  tmpMaxMemoryConsumption :: number
  dateMaxMemoryConsumption :: date

text \<open>
  \<open>checkMemoryUsage\<close> creates the shared record and registers the callback, closed over
  the two thresholds, with the period. \<open>h\<close> is the handle \<open>setInterval\<close> returns and
  \<open>now\<close> the clock.
\<close>

definition checkMemoryUsage ::
  "number option \<Rightarrow> number option \<Rightarrow> number option \<Rightarrow> date \<Rightarrow> handle \<Rightarrow> effect list \<times> infos" where
  "checkMemoryUsage w e ivl now h =
     ([SetInterval h w e ivl],
      \<lparr>interval = Some h, tmpMaxMemoryConsumption = 0, dateMaxMemoryConsumption = now\<rparr>)"

text \<open>
  One run of the interval callback. \<open>rss\<close> is what \<open>process.memoryUsage.rss()\<close>
  returns, in bytes, and \<open>now\<close> the clock. \<open>process.exit\<close> ends the process: nothing
  after it runs, and the record is as it was.
\<close>

definition tick ::
  "string option \<Rightarrow> number option \<Rightarrow> number option \<Rightarrow> nat \<Rightarrow> date \<Rightarrow> infos
   \<Rightarrow> effect list \<times> infos" where
  "tick env w e rss now i =
     (let memUsage = toMB rss
      in if js_gt memUsage e
         then (Next (Error (ERROR_MEMORY_CONSUMPTION_TXT now memUsage e))
               # errorLog env (ERROR_MEMORY_CONSUMPTION_TXT now memUsage e) @ [Exit 1], i)
         else ((if js_gt memUsage w then [Debounced memUsage w] else []),
               (if tmpMaxMemoryConsumption i < memUsage
                then i\<lparr>tmpMaxMemoryConsumption := memUsage, dateMaxMemoryConsumption := now\<rparr>
                else i)))"

text \<open>
  The function that lodash's \<open>debounce\<close> wraps (wait 2500, leading and trailing), run
  when the library lets a call through; \<open>now\<close> is the clock then. The library is not
  part of the repository: a call of the wrapper is the effect \<open>Debounced\<close>, and which
  calls get through is not modelled.
\<close>

definition warningMemoryLimit :: "string option \<Rightarrow> date \<Rightarrow> number \<Rightarrow> number option \<Rightarrow> effect list" where
  "warningMemoryLimit env now memUsage limit =
     Next (Warning (WARNING_MEMORY_CONSUMPTION_TXT now memUsage limit))
     # warningLog env (WARNING_MEMORY_CONSUMPTION_TXT now memUsage limit)"

text \<open>
  Successive runs of the callback, each with its reading and the time of its tick; a
  fatal one ends the process, so the later ones do not run.
\<close>

fun ticks ::
  "string option \<Rightarrow> number option \<Rightarrow> number option \<Rightarrow> (nat \<times> date) list \<Rightarrow> infos
   \<Rightarrow> effect list \<times> infos" where
  "ticks env w e [] i = ([], i)"
| "ticks env w e ((rss, now) # rest) i =
     (let (es, i') = tick env w e rss now i
      in if exit_codes es \<noteq> [] then (es, i')
         else let (es', i'') = ticks env w e rest i' in (es @ es', i''))"

section \<open>The build session\<close>

record MonitoringOptions =
  MEMORY_WARNING_MAX_SIZE :: "number option"
  MEMORY_ERROR_MAX_SIZE :: "number option"
  BUNDLE_ROOT_FOLDER_PATH :: "string option"
  BUNDLE_MAX_SIZE :: "number option"
  NODE_MODULES_MAX_SIZE :: "number option"
  NB_NODE_MODULES_MAX :: "number option"
  INTERVAL_CHECK_MEMORY :: "number option"
  LOG :: "bool option"

text \<open>
  \<open>monitoring(options)\<close>, up to the plugin object it returns. \<open>env\<close> is the value of
  \<open>process.env.MONITORING_LOG_ENABLED\<close> before the call; the result carries its value
  after, and the shared record. The promise of the dependency check is not awaited.
\<close>

definition monitoring ::
  "MonitoringOptions \<Rightarrow> string option \<Rightarrow> date \<Rightarrow> handle \<Rightarrow> string \<Rightarrow> packageJson option
   \<Rightarrow> effect list \<times> string option \<times> infos" where
  "monitoring options env now h appRoot manifest =
     (let w = orDefault 2950 (MEMORY_WARNING_MAX_SIZE options);
          e = orDefault 4500 (MEMORY_ERROR_MAX_SIZE options);
          ivl = orDefault 350 (INTERVAL_CHECK_MEMORY options);
          env' = (if orDefault True (LOG options) then Some ''true'' else env);
          es1 = (if e < w
                 then Next (Error WARNING_ABOVE_ERROR_TXT) # errorLog env' WARNING_ABOVE_ERROR_TXT
                 else []);
          (es2, i) = checkMemoryUsage (Some w) (Some e) (Some ivl) now h;
          (es3, p) = checkNbOfNodeModulesDeps env' (NB_NODE_MODULES_MAX options) appRoot manifest
      in (es1 @ es2 @ es3, env', i))"

text \<open>
  \<open>finalCallback\<close>, the \<open>writeBundle\<close> hook. The two probes give a byte count, or fail
  (\<open>None\<close>); \<open>Promise.all\<close> rejects when either fails, and then no check runs.
\<close>

definition finalCallback ::
  "MonitoringOptions \<Rightarrow> string option \<Rightarrow> infos \<Rightarrow> nat option \<Rightarrow> nat option
   \<Rightarrow> effect list \<times> promise" where
  "finalCallback options env i bundle nodeModules =
     (let info = MEMORY_CONSUMPTION_TXT (tmpMaxMemoryConsumption i) (dateMaxMemoryConsumption i);
          pre = ClearInterval (interval i) # Next (Info info) # infoLog env info
                @ [FastFolderSize (orDefault ''./public/build'' (BUNDLE_ROOT_FOLDER_PATH options)),
                   FastFolderSize ''./node_modules'']
      in case (bundle, nodeModules) of
           (Some b, Some n) \<Rightarrow>
             (pre @ checkNodeModulesSize env (NODE_MODULES_MAX_SIZE options) (toMB n)
                  @ checkBundleSizes env (BUNDLE_MAX_SIZE options) (toMB b), Fulfilled)
         | _ \<Rightarrow> (pre, Rejected))"

subsection \<open>The event loop\<close>

text \<open>
  A session of one monitor: the logging flag, the options, the shared record, the
  interval timers that are registered and not cleared (each with the thresholds of its
  callback), the exit code once the process has ended, and what was done so far. The
  event loop fires a timer only while it is registered, and nothing runs after the
  process has ended. A callback runs to its end before the next event; the part of
  \<open>finalCallback\<close> after its \<open>await\<close> is run with the part before it, which
  has cleared the timer by then.
\<close>

record session =
  logEnabled :: "string option"
  opts :: MonitoringOptions
  shared :: infos
  timers :: "(handle \<times> number option \<times> number option) list"
  exited :: "int option"
  trace :: "effect list"

text \<open>
  What an effect does to the registered timers: \<open>setInterval\<close> registers one under the
  handle it returns, \<open>clearInterval\<close> removes the one with the given handle.
\<close>

fun schedule ::
  "effect \<Rightarrow> (handle \<times> number option \<times> number option) list
   \<Rightarrow> (handle \<times> number option \<times> number option) list" where
  "schedule (SetInterval h w e ivl) ts = (h, w, e) # ts"
| "schedule (ClearInterval ho) ts = filter (\<lambda>t. Some (fst t) \<noteq> ho) ts"
| "schedule x ts = ts"

fun perform :: "effect \<Rightarrow> session \<Rightarrow> session" where
  "perform x s =
     s\<lparr>timers := schedule x (timers s),
       exited := (case x of Exit c \<Rightarrow> Some c | _ \<Rightarrow> exited s),
       trace := trace s @ [x]\<rparr>"

fun perform_all :: "effect list \<Rightarrow> session \<Rightarrow> session" where
  "perform_all [] s = s"
| "perform_all (x # xs) s = perform_all xs (perform x s)"

datatype event = Fire handle nat date | WriteBundle "nat option" "nat option"

definition start ::
  "MonitoringOptions \<Rightarrow> string option \<Rightarrow> date \<Rightarrow> handle \<Rightarrow> string \<Rightarrow> packageJson option
   \<Rightarrow> session" where
  "start options env now h appRoot manifest =
     (let (es, env', i) = monitoring options env now h appRoot manifest
      in perform_all es
           \<lparr>logEnabled = env', opts = options, shared = i, timers = [], exited = None, trace = []\<rparr>)"

fun step :: "event \<Rightarrow> session \<Rightarrow> session" where
  "step (Fire h rss now) s =
     (if exited s \<noteq> None then s
      else case map_of (timers s) h of
        None \<Rightarrow> s
      | Some (w, e) \<Rightarrow>
          (let (es, i) = tick (logEnabled s) w e rss now (shared s)
           in perform_all es (s\<lparr>shared := i\<rparr>)))"
| "step (WriteBundle bundle nodeModules) s =
     (if exited s \<noteq> None then s
      else perform_all (fst (finalCallback (opts s) (logEnabled s) (shared s) bundle nodeModules)) s)"

fun run :: "event list \<Rightarrow> session \<Rightarrow> session" where
  "run [] s = s"
| "run (ev # evs) s = run evs (step ev s)"

section \<open>Concrete inputs\<close>

text \<open>
  A host, a manifest with six runtime and five development dependencies, and the record of
  a monitor that has just started, for the examples.
\<close>

definition host0 :: host where
  "host0 = \<lparr>numStr = (\<lambda>x. ''?''), dateStr = (\<lambda>d. ''?'')\<rparr>"

definition manifest0 :: packageJson where
  "manifest0 =
     \<lparr>dependencies = Some [(''colors'', ''1''), (''fast-folder-size'', ''1''), (''lodash'', ''4''),
                            (''rxjs'', ''7''), (''vite'', ''4''), (''tslib'', ''2'')],
      devDependencies = Some [(''jest'', ''29''), (''ts-jest'', ''29''), (''typescript'', ''4''),
                               (''eslint'', ''8''), (''prettier'', ''2'')]\<rparr>"

definition infos0 :: infos where
  "infos0 = snd (checkMemoryUsage (Some 100) (Some 1000) None 0 3)"

text \<open>
  Options with the thresholds of the repository's fatal-path test, the session they start,
  and options whose warning threshold is above the fatal one.
\<close>

definition options0 :: MonitoringOptions where
  "options0 =
     \<lparr>MEMORY_WARNING_MAX_SIZE = Some 100, MEMORY_ERROR_MAX_SIZE = Some 1000,
      BUNDLE_ROOT_FOLDER_PATH = None, BUNDLE_MAX_SIZE = None, NODE_MODULES_MAX_SIZE = None,
      NB_NODE_MODULES_MAX = None, INTERVAL_CHECK_MEMORY = None, LOG = None\<rparr>"

definition session0 :: session where
  "session0 = start options0 None 0 3 ''/app'' None"


section \<open>Properties of the arithmetic\<close>

lemma ilog2_ge1:
  assumes "1 \<le> x"
  shows "2 powi ilog2 x \<le> x \<and> x < 2 powi (ilog2 x + 1)"
proof -
  define n where "n = \<lfloor>x\<rfloor>"
  have n1: "1 \<le> n" using assms by (simp add: n_def)
  then have n0: "0 < n" by simp
  have b1: "1 \<le> bitlen n" using n0 bitlen_eq_zero_iff [of n] bitlen_nonneg [of n] by linarith
  from bitlen_bounds [OF n0]
  have lo: "2 ^ nat (bitlen n - 1) \<le> n" and hi: "n < 2 ^ nat (bitlen n)" by simp_all
  have il: "ilog2 x = bitlen n - 1" using assms by (simp add: ilog2_def n_def)
  have "(2::rat) powi (bitlen n - 1) = of_int (2 ^ nat (bitlen n - 1))"
    using b1 by (simp add: power_int_def)
  also have "\<dots> \<le> of_int n" using lo by (simp only: of_int_le_iff)
  also have "\<dots> \<le> x" by (simp add: n_def)
  finally have A: "2 powi ilog2 x \<le> x" by (simp add: il)
  have "n + 1 \<le> 2 ^ nat (bitlen n)" using hi by simp
  then have "(of_int (n + 1) :: rat) \<le> of_int (2 ^ nat (bitlen n))" by (simp only: of_int_le_iff)
  moreover have "x < of_int (n + 1)" using floor_correct [of x] by (simp add: n_def)
  moreover have "(2::rat) powi (bitlen n - 1 + 1) = of_int (2 ^ nat (bitlen n))"
    using b1 by (simp add: power_int_def)
  ultimately have B: "x < 2 powi (ilog2 x + 1)" by (simp add: il)
  from A B show ?thesis ..
qed

lemma ilog2_lt1:
  assumes "0 < x" "x < 1"
  shows "2 powi ilog2 x \<le> x \<and> x < 2 powi (ilog2 x + 1)"
proof -
  define y where "y = 1 / x"
  define d where "d = \<lceil>y\<rceil> - 1"
  have y1: "1 < y" using assms by (simp add: y_def)
  have d1: "1 \<le> d" using y1 by (simp add: d_def)
  then have d0: "0 < d" by simp
  have b1: "1 \<le> bitlen d" using d0 bitlen_eq_zero_iff [of d] bitlen_nonneg [of d] by linarith
  from bitlen_bounds [OF d0]
  have lo: "2 ^ nat (bitlen d - 1) \<le> d" and hi: "d < 2 ^ nat (bitlen d)" by simp_all
  have il: "ilog2 x = - bitlen d" using assms by (simp add: ilog2_def d_def y_def)
  have xy: "x = 1 / y" using assms by (simp add: y_def)
  have "d + 1 \<le> 2 ^ nat (bitlen d)" using hi by simp
  then have "(of_int (d + 1) :: rat) \<le> of_int (2 ^ nat (bitlen d))" by (simp only: of_int_le_iff)
  moreover have "y \<le> of_int (d + 1)" using ceiling_correct [of y] by (simp add: d_def)
  ultimately have yle: "y \<le> 2 ^ nat (bitlen d)" by simp
  have "(2::rat) powi (- bitlen d) = 1 / 2 powi bitlen d"
    by (rule power_int_minus_divide)
  also have "\<dots> = 1 / 2 ^ nat (bitlen d)"
    using b1 by (simp add: power_int_def)
  also have "\<dots> \<le> 1 / y" by (rule frac_le) (use yle y1 in simp_all)
  finally have A: "2 powi ilog2 x \<le> x" unfolding il using xy by simp
  have "(2::rat) ^ nat (bitlen d - 1) \<le> of_int d"
    using of_int_le_iff [where ?'a = rat, THEN iffD2, OF lo] by simp
  moreover have "of_int d < y" using ceiling_correct [of y] by (simp add: d_def)
  ultimately have ylt: "2 ^ nat (bitlen d - 1) < y" by linarith
  have "(2::rat) powi (- (bitlen d - 1)) = 1 / 2 powi (bitlen d - 1)"
    by (rule power_int_minus_divide)
  then have "(2::rat) powi (- bitlen d + 1) = 1 / 2 ^ nat (bitlen d - 1)"
    using b1 by (simp add: power_int_def)
  moreover have "1 / y < 1 / (2 ^ nat (bitlen d - 1) :: rat)"
    by (rule frac_less2) (use ylt in simp_all)
  ultimately have B: "x < 2 powi (ilog2 x + 1)" unfolding il using xy by simp
  from A B show ?thesis ..
qed

lemma ilog2_bounds:
  assumes "0 < x"
  shows "2 powi ilog2 x \<le> x \<and> x < 2 powi (ilog2 x + 1)"
  using assms ilog2_ge1 [of x] ilog2_lt1 [of x] by (cases "1 \<le> x") auto

lemma roundTiesToEven_error: "\<bar>of_int (roundTiesToEven r) - r\<bar> \<le> 1 / 2"
proof -
  have "of_int \<lfloor>r\<rfloor> \<le> r" "r < of_int \<lfloor>r\<rfloor> + 1"
    using floor_correct [of r] by simp_all
  then show ?thesis
    unfolding roundTiesToEven_def Let_def by (simp add: abs_if) linarith
qed

lemma roundTiesToEven_of_int [simp]: "roundTiesToEven (of_int m) = m"
  by (simp add: roundTiesToEven_def)

lemma roundTiesToEven_nonneg: "0 \<le> r \<Longrightarrow> 0 \<le> roundTiesToEven r"
  by (auto simp: roundTiesToEven_def Let_def)

lemma fl_unit:
  assumes "x \<noteq> 0"
  shows "fl x = of_int (roundTiesToEven (x / 2 powi (ilog2 \<bar>x\<bar> - 52))) * 2 powi (ilog2 \<bar>x\<bar> - 52)"
  using assms by (simp add: fl_def Let_def)

lemma unit_scaled: "(2::rat) powi (e - 52) * 2 ^ 52 = 2 powi e"
proof -
  have "(2::rat) powi (e - 52) = 2 powi e / 2 powi 52" by (rule power_int_diff) simp
  then show ?thesis by simp
qed

lemma fl_error:
  assumes "0 < x"
  shows "\<bar>fl x - x\<bar> \<le> x / 2 ^ 53"
proof -
  define u :: rat where "u = 2 powi (ilog2 \<bar>x\<bar> - 52)"
  define R :: rat where "R = of_int (roundTiesToEven (x / u))"
  have u0: "0 < u" by (simp add: u_def zero_less_power_int)
  have fx: "fl x = R * u" using assms by (simp add: fl_unit u_def R_def)
  have "\<bar>R - x / u\<bar> \<le> 1 / 2" unfolding R_def by (rule roundTiesToEven_error)
  then have "\<bar>R - x / u\<bar> * u \<le> 1 / 2 * u" using u0 by (intro mult_right_mono) simp_all
  moreover have "\<bar>R - x / u\<bar> * u = \<bar>R * u - x\<bar>"
  proof -
    have "\<bar>R - x / u\<bar> * u = \<bar>(R - x / u) * u\<bar>" using u0 by (simp add: abs_mult)
    also have "(R - x / u) * u = R * u - x" using u0 by (simp add: algebra_simps)
    finally show ?thesis .
  qed
  ultimately have e1: "\<bar>fl x - x\<bar> \<le> u / 2" by (simp add: fx)
  have "u * 2 ^ 52 = 2 powi ilog2 x" using assms unit_scaled [of "ilog2 x"] by (simp add: u_def)
  also have "\<dots> \<le> x" using ilog2_bounds [OF assms] by simp
  finally have "u * 2 ^ 52 \<le> x" .
  then have "u / 2 \<le> x / 2 ^ 53" by simp
  with e1 show ?thesis by linarith
qed

lemma fl_nonneg:
  assumes "0 \<le> x"
  shows "0 \<le> fl x"
proof (cases "x = 0")
  case True
  then show ?thesis by (simp add: fl_def)
next
  case False
  have u0: "0 < (2::rat) powi (ilog2 \<bar>x\<bar> - 52)" by (simp add: zero_less_power_int)
  then have "0 \<le> x / 2 powi (ilog2 \<bar>x\<bar> - 52)" using assms by simp
  then have "0 \<le> roundTiesToEven (x / 2 powi (ilog2 \<bar>x\<bar> - 52))" by (rule roundTiesToEven_nonneg)
  then show ?thesis using False u0 by (simp add: fl_unit)
qed

lemma fl_of_nat:
  assumes "n < 2 ^ 53"
  shows "fl (of_nat n) = of_nat n"
proof (cases "n = 0")
  case True
  then show ?thesis by (simp add: fl_def)
next
  case False
  define x :: rat where "x = of_nat n"
  have x0: "0 < x" using False by (simp add: x_def)
  have "x < 2 ^ 53" using assms unfolding x_def
    by (metis of_nat_less_iff of_nat_numeral of_nat_power)
  then have "x < 2 powi 53" by simp
  moreover have "2 powi ilog2 x \<le> x" using ilog2_bounds [OF x0] by simp
  ultimately have "(2::rat) powi ilog2 x < 2 powi 53" by linarith
  then have "ilog2 x < 53" by (rule power_int_le_imp_less_exp [rotated]) simp_all
  then have le: "0 \<le> 52 - ilog2 x" by simp
  have "(2::rat) powi (- (52 - ilog2 x)) = 1 / 2 powi (52 - ilog2 x)"
    by (rule power_int_minus_divide)
  then have "(2::rat) powi (ilog2 x - 52) = 1 / 2 ^ nat (52 - ilog2 x)"
    using le by (simp add: power_int_nonneg_exp)
  then have "x / 2 powi (ilog2 \<bar>x\<bar> - 52) = of_int (int n * 2 ^ nat (52 - ilog2 x))"
    using x0 by (simp add: x_def)
  then have "of_int (roundTiesToEven (x / 2 powi (ilog2 \<bar>x\<bar> - 52))) = x / 2 powi (ilog2 \<bar>x\<bar> - 52)"
    by (simp only: roundTiesToEven_of_int)
  then have "fl x = x / 2 powi (ilog2 \<bar>x\<bar> - 52) * 2 powi (ilog2 \<bar>x\<bar> - 52)"
    using x0 by (simp add: fl_unit)
  then show ?thesis by (simp add: x_def [symmetric])
qed

lemma toMB_MB:
  assumes "n * 1000000 < 2 ^ 53"
  shows "toMB (n * 1000000) = of_nat n"
proof -
  have a: "n * 1000 < 2 ^ 53" and b: "n < 2 ^ 53" using assms by simp_all
  have "js_div (of_nat (n * 1000000)) 1000 = fl (of_nat (n * 1000))"
    by (simp add: js_div_def mult.commute)
  then have q1: "js_div (of_nat (n * 1000000)) 1000 = of_nat (n * 1000)"
    using fl_of_nat [OF a] by simp
  have "js_div (of_nat (n * 1000)) 1000 = fl (of_nat n)" by (simp add: js_div_def)
  then have q2: "js_div (of_nat (n * 1000)) 1000 = of_nat n" using fl_of_nat [OF b] by simp
  have "(of_nat n :: rat) * 100 + 1 / 2 = of_int (int n * 100) + 1 / 2" by simp
  then have "\<lfloor>(of_nat n :: rat) * 100 + 1 / 2\<rfloor> = int n * 100"
    by (simp only: floor_add_int [symmetric]) linarith
  then have f: "toFixed2 (of_nat n) = int n * 100" by (simp add: toFixed2_def)
  have "Number2 (int n * 100) = fl (of_nat n)" by (simp add: Number2_def)
  then have N: "Number2 (int n * 100) = of_nat n" using fl_of_nat [OF b] by simp
  show ?thesis unfolding toMB_def q1 q2 f N ..
qed


section \<open>The conversion to megabytes\<close>

lemma fl_small: "fl 5 = 5" "fl 20 = 20" "fl 1005 = 1005"
  using fl_of_nat [of 5] fl_of_nat [of 20] fl_of_nat [of 1005] by simp_all

lemma js_div_20000: "js_div (js_div 20000 1000) 1000 = 5764607523034235 / 288230376151711744"
proof -
  have a: "js_div 20000 1000 = 20" by (simp add: js_div_def fl_small)
  have b: "fl (20 / 1000) = 5764607523034235 / 288230376151711744" by code_simp
  show ?thesis unfolding a unfolding js_div_def by (rule b)
qed

lemma js_div_12345678:
  "js_div (js_div 12345678 1000) 1000 = 1737499713763629 / 140737488355328"
proof -
  have a: "js_div 12345678 1000 = 848388532111147 / 68719476736"
    unfolding js_div_def by code_simp
  have b: "fl (848388532111147 / 68719476736 / 1000) = 1737499713763629 / 140737488355328"
    by code_simp
  show ?thesis unfolding a unfolding js_div_def by (rule b)
qed

lemma js_div_1005000:
  "js_div (js_div 1005000 1000) 1000 = 1131529406376837 / 1125899906842624"
proof -
  have a: "js_div 1005000 1000 = 1005" by (simp add: js_div_def fl_small)
  have b: "fl (1005 / 1000) = 1131529406376837 / 1125899906842624" by code_simp
  show ?thesis unfolding a unfolding js_div_def by (rule b)
qed

lemma js_div_5000:
  "js_div (js_div 5000 1000) 1000 = 5764607523034235 / 1152921504606846976"
proof -
  have a: "js_div 5000 1000 = 5" by (simp add: js_div_def fl_small)
  have b: "fl (5 / 1000) = 5764607523034235 / 1152921504606846976" by code_simp
  show ?thesis unfolding a unfolding js_div_def by (rule b)
qed

lemma toFixed2_values:
  "toFixed2 (5764607523034235 / 288230376151711744) = 2"
  "toFixed2 (1737499713763629 / 140737488355328) = 1235"
  "toFixed2 (1131529406376837 / 1125899906842624) = 100"
  "toFixed2 (5764607523034235 / 1152921504606846976) = 1"
  by code_simp+

lemma toMB_values:
  "toMB 20000 = Number2 2" "toMB 12345678 = Number2 1235"
  "toMB 1005000 = Number2 100" "toMB 5000 = Number2 1"
  by (simp_all only: toMB_def of_nat_numeral js_div_20000 js_div_12345678 js_div_1005000
      js_div_5000 toFixed2_values)

lemma Number2_values:
  "Number2 0 = 0" "Number2 100 = 1"
  "Number2 1 = 5764607523034235 / 576460752303423488"
  "Number2 101 = 4548635623644201 / 4503599627370496"
  unfolding Number2_def by code_simp+

lemma round2_values:
  "round2 (1005000 / 1000000) = Number2 101" "round2_even (5000 / 1000000) = Number2 0"
  unfolding round2_def round2_even_def by code_simp+

text \<open>
  C5 as stated fails where the exact quotient lies halfway between two hundredths, under
  either usual reading of "rounded". 1005000 bytes are exactly 1.005 MB; the binary64
  quotient is just below it, and the result is 1, not 1.01 (half up). 5000 bytes are
  exactly 0.005 MB; the binary64 quotient is just above it, and the result is 0.01, not
  0 (half to even).
\<close>

theorem toMB_counterexample:
  "toMB 1005000 = 1 \<and> round2 (1005000 / 1000000) = 4548635623644201 / 4503599627370496
   \<and> toMB 1005000 \<noteq> round2 (1005000 / 1000000)
   \<and> toMB 5000 = 5764607523034235 / 576460752303423488 \<and> round2_even (5000 / 1000000) = 0
   \<and> toMB 5000 \<noteq> round2_even (5000 / 1000000)"
  unfolding toMB_values round2_values Number2_values by simp

lemma js_div_nonneg: "0 \<le> x \<Longrightarrow> 0 < y \<Longrightarrow> 0 \<le> js_div x y"
  unfolding js_div_def by (rule fl_nonneg) simp

lemma toFixed2_nonneg: "0 \<le> x \<Longrightarrow> 0 \<le> toFixed2 x"
  by (simp add: toFixed2_def)

lemma Number2_nonneg: "0 \<le> n \<Longrightarrow> 0 \<le> Number2 n"
  unfolding Number2_def by (rule fl_nonneg) simp

lemma toMB_nonneg: "0 \<le> toMB b"
  unfolding toMB_def
  by (intro Number2_nonneg toFixed2_nonneg js_div_nonneg) simp_all

lemma fl_error_numeral:
  assumes "0 < x"
  shows "fl x - x \<le> x / 9007199254740992" and "x - fl x \<le> x / 9007199254740992"
proof -
  have "\<bar>fl x - x\<bar> \<le> x / 9007199254740992" using fl_error [OF assms] by simp
  then show "fl x - x \<le> x / 9007199254740992" and "x - fl x \<le> x / 9007199254740992"
    by linarith+
qed

lemma quotient_error:
  assumes "0 < b" "b < 2 ^ 52"
  shows "\<bar>js_div (js_div (of_nat b) 1000) 1000 * 100 - of_nat b / 10000\<bar> < 1 / 10000"
    and "0 \<le> js_div (js_div (of_nat b) 1000) 1000"
proof -
  define x :: rat where "x = of_nat b"
  define q1 where "q1 = fl (x / 1000)"
  define q2 where "q2 = fl (q1 / 1000)"
  have x0: "0 < x" using assms by (simp add: x_def)
  have "b \<le> 2 ^ 52 - 1" using assms by simp
  then have "x \<le> of_nat (2 ^ 52 - 1)" unfolding x_def by (simp only: of_nat_le_iff)
  then have xb: "x \<le> 4503599627370495" by simp
  have x1: "0 < x / 1000" using x0 by simp
  have e1: "q1 - x / 1000 \<le> x / 1000 / 9007199254740992"
    "x / 1000 - q1 \<le> x / 1000 / 9007199254740992"
    unfolding q1_def using fl_error_numeral [OF x1] by blast+
  have q10: "0 < q1" using e1 x0 by linarith
  then have q11: "0 < q1 / 1000" by simp
  have e2: "q2 - q1 / 1000 \<le> q1 / 1000 / 9007199254740992"
    "q1 / 1000 - q2 \<le> q1 / 1000 / 9007199254740992"
    unfolding q2_def using fl_error_numeral [OF q11] by blast+
  have "q2 * 100 - x / 10000 < 1 / 10000" "x / 10000 - q2 * 100 < 1 / 10000"
    using e1 e2 x0 xb by linarith+
  then have "\<bar>q2 * 100 - x / 10000\<bar> < 1 / 10000" by (simp only: abs_less_iff) simp
  moreover have "0 \<le> q2" using e2 q10 by linarith
  ultimately show "\<bar>js_div (js_div (of_nat b) 1000) 1000 * 100 - of_nat b / 10000\<bar> < 1 / 10000"
    and "0 \<le> js_div (js_div (of_nat b) 1000) 1000"
    by (simp_all add: js_div_def q2_def q1_def x_def)
qed

lemma half_up_split:
  "of_nat b / 10000 + 1 / 2 = (of_int (int ((b + 5000) div 10000)) :: rat)
     + of_nat ((b + 5000) mod 10000) / 10000"
proof -
  have "b + 5000 = 10000 * ((b + 5000) div 10000) + (b + 5000) mod 10000" by simp
  then have "(of_nat (b + 5000) :: rat)
      = of_nat (10000 * ((b + 5000) div 10000) + (b + 5000) mod 10000)" by simp
  then have "(of_nat b :: rat) + 5000
      = 10000 * of_nat ((b + 5000) div 10000) + of_nat ((b + 5000) mod 10000)"
    by (simp only: of_nat_add of_nat_mult of_nat_numeral)
  then show ?thesis by (simp add: field_simps)
qed

lemma half_up_floor: "\<lfloor>(of_nat b :: rat) / 10000 + 1 / 2\<rfloor> = int ((b + 5000) div 10000)"
proof (rule floor_unique)
  have "(of_nat ((b + 5000) mod 10000) :: rat) < of_nat 10000"
    by simp
  then have "(of_nat ((b + 5000) mod 10000) :: rat) / 10000 < 1" by simp
  moreover have "0 \<le> (of_nat ((b + 5000) mod 10000) :: rat) / 10000" by simp
  ultimately show "of_int (int ((b + 5000) div 10000)) \<le> (of_nat b :: rat) / 10000 + 1 / 2"
    and "(of_nat b :: rat) / 10000 + 1 / 2 < of_int (int ((b + 5000) div 10000)) + 1"
    unfolding half_up_split by linarith+
qed

lemma toFixed2_quotient:
  assumes "0 < b" "b < 2 ^ 52"
  shows "\<bar>of_int (toFixed2 (js_div (js_div (of_nat b) 1000) 1000)) - (of_nat b :: rat) / 10000\<bar> \<le> 1 / 2"
    and "b mod 10000 \<noteq> 5000 \<Longrightarrow>
           toFixed2 (js_div (js_div (of_nat b) 1000) 1000) = \<lfloor>(of_nat b :: rat) / 10000 + 1 / 2\<rfloor>"
proof -
  define q where "q = js_div (js_div (of_nat b) 1000) 1000"
  define t :: rat where "t = of_nat b / 10000"
  define N where "N = int ((b + 5000) div 10000)"
  define r where "r = (b + 5000) mod 10000"
  define rr :: rat where "rr = of_nat r / 10000"
  define F where "F = \<lfloor>q * 100 + 1 / 2\<rfloor>"
  have "\<bar>q * 100 - t\<bar> < 1 / 10000" and q0: "0 \<le> q"
    using quotient_error [OF assms] by (simp_all add: q_def t_def)
  then have errL: "q * 100 - t < 1 / 10000" and errR: "t - q * 100 < 1 / 10000"
    by linarith+
  have n: "toFixed2 q = F" using q0 by (simp add: toFixed2_def F_def)
  have split: "t + 1 / 2 = of_int N + rr"
    unfolding t_def N_def r_def rr_def by (rule half_up_split)
  have "(of_nat r :: rat) < of_nat 10000" unfolding r_def by simp
  then have r1: "rr < 1" unfolding rr_def by simp
  have r0: "0 \<le> rr" unfolding rr_def by simp
  have fl1: "of_int F \<le> q * 100 + 1 / 2" and fl2: "q * 100 + 1 / 2 < of_int F + 1"
    unfolding F_def using floor_correct [of "q * 100 + 1 / 2"] by simp_all
  have nontie: "F = N" if "r \<noteq> 0"
  proof -
    from that have "1 \<le> r" by simp
    then have "(of_nat 1 :: rat) \<le> of_nat r" by (simp only: of_nat_le_iff)
    then have r_lo: "1 / 10000 \<le> rr" unfolding rr_def by simp
    have "r \<le> 9999" unfolding r_def by simp
    then have "(of_nat r :: rat) \<le> of_nat 9999" by (simp only: of_nat_le_iff)
    then have r_hi: "rr \<le> 9999 / 10000" unfolding rr_def by simp
    show "F = N" unfolding F_def
    proof (rule floor_unique)
      show "of_int N \<le> q * 100 + 1 / 2" using errR split r_lo by linarith
      show "q * 100 + 1 / 2 < of_int N + 1" using errL split r_hi by linarith
    qed
  qed
  show "\<bar>of_int (toFixed2 (js_div (js_div (of_nat b) 1000) 1000)) - (of_nat b :: rat) / 10000\<bar> \<le> 1 / 2"
  proof -
    have "\<bar>of_int F - t\<bar> \<le> 1 / 2"
    proof (cases "r = 0")
      case True
      then have t: "t = of_int N - 1 / 2" using split by (simp add: rr_def)
      have "(of_int F :: rat) < of_int N + 1 / 10000" using fl1 errL t by linarith
      then have "(of_int F :: rat) < of_int (N + 1)" by simp
      then have "F \<le> N" by simp
      then have up: "(of_int F :: rat) \<le> of_int N" by (simp only: of_int_le_iff)
      have "(of_int N :: rat) - 2 < of_int F" using fl2 errR t by linarith
      then have "(of_int (N - 2) :: rat) < of_int F" by simp
      then have "N - 1 \<le> F" by simp
      then have "(of_int (N - 1) :: rat) \<le> of_int F" by (simp only: of_int_le_iff)
      then have "(of_int N :: rat) - 1 \<le> of_int F" by simp
      with up show ?thesis using t by linarith
    next
      case False
      then have "F = N" by (rule nontie)
      moreover have "\<bar>of_int N - t\<bar> \<le> 1 / 2" using split r0 r1 by linarith
      ultimately show ?thesis by (simp only:)
    qed
    then show ?thesis by (simp add: n q_def [symmetric] t_def)
  qed
  show "toFixed2 (js_div (js_div (of_nat b) 1000) 1000) = \<lfloor>(of_nat b :: rat) / 10000 + 1 / 2\<rfloor>"
    if "b mod 10000 \<noteq> 5000"
  proof -
    have "r \<noteq> 0"
    proof
      assume "r = 0"
      then have "(b + 5000) mod 10000 = 0" by (simp add: r_def)
      then have "10000 dvd b + 5000" by (simp only: mod_eq_0_iff_dvd)
      then obtain k where k: "b + 5000 = 10000 * k" by (rule dvdE)
      then have "k \<noteq> 0" by auto
      then obtain j where "k = Suc j" by (cases k) auto
      with k have "b = 10000 * j + 5000" by simp
      then have "b mod 10000 = 5000" by simp
      with that show False by simp
    qed
    then have "F = N" by (rule nontie)
    then show ?thesis by (simp add: n q_def [symmetric] half_up_floor N_def)
  qed
qed

lemma floor_half: "\<lfloor>1 / 2 :: rat\<rfloor> = 0"
  by (rule floor_unique) simp_all

lemma toMB_0: "toMB 0 = Number2 0"
proof -
  have "js_div (js_div 0 1000) 1000 = 0" by (simp add: js_div_def fl_def)
  then show ?thesis by (simp add: toMB_def toFixed2_def floor_half)
qed

lemma round2_quotient: "round2 (of_nat b / 1000000) = Number2 \<lfloor>(of_nat b :: rat) / 10000 + 1 / 2\<rfloor>"
proof -
  have "(of_nat b :: rat) / 1000000 * 100 = of_nat b / 10000" by simp
  then show ?thesis unfolding round2_def by (simp only:)
qed

text \<open>
  C5, as amended. \<open>toMB(20000)\<close> is the number written 0.02 and \<open>toMB(12345678)\<close>
  the number written 12.35. For every byte count the result is not negative. For every
  byte count below \<open>2^52\<close> the result is the number written with the two decimals of
  some integer of hundredths that is within a half of the exact count of hundredths
  \<open>b / 10000\<close>; when the exact quotient is not halfway between two hundredths
  (\<open>b mod 10000 \<noteq> 5000\<close>) it is \<open>b / 1000000\<close> rounded to two decimal places.
\<close>

theorem toMB_rounding:
  "toMB 20000 = Number2 2 \<and> toMB 12345678 = Number2 1235
   \<and> 0 \<le> toMB b
   \<and> (b < 2 ^ 52 \<longrightarrow>
        (\<exists>n. toMB b = Number2 n \<and> \<bar>of_int n - (of_nat b :: rat) / 10000\<bar> \<le> 1 / 2)
        \<and> (b mod 10000 \<noteq> 5000 \<longrightarrow> toMB b = round2 (of_nat b / 1000000)))"
proof -
  have "(\<exists>n. toMB b = Number2 n \<and> \<bar>of_int n - (of_nat b :: rat) / 10000\<bar> \<le> 1 / 2)
        \<and> (b mod 10000 \<noteq> 5000 \<longrightarrow> toMB b = round2 (of_nat b / 1000000))"
    if small: "b < 2 ^ 52"
  proof (cases "b = 0")
    case True
    have "\<bar>of_int 0 - (of_nat 0 :: rat) / 10000\<bar> \<le> 1 / 2" by simp
    moreover have "round2 (of_nat 0 / 1000000) = Number2 0" by (simp add: round2_def floor_half)
    ultimately show ?thesis using True toMB_0 by auto
  next
    case False
    then have pos: "0 < b" by simp
    have a: "\<bar>of_int (toFixed2 (js_div (js_div (of_nat b) 1000) 1000)) - (of_nat b :: rat) / 10000\<bar>
        \<le> 1 / 2"
      by (rule toFixed2_quotient(1) [OF pos small])
    have "toMB b = round2 (of_nat b / 1000000)" if "b mod 10000 \<noteq> 5000"
      unfolding toMB_def round2_quotient
      using toFixed2_quotient(2) [OF pos small that] by (simp only:)
    with a show ?thesis unfolding toMB_def by blast
  qed
  then show ?thesis using toMB_values(1,2) toMB_nonneg [of b] by blast
qed

text \<open>At 12345678 bytes.\<close>

theorem toMB_rounding_witness:
  "(12345678::nat) < 2 ^ 52 \<and> (12345678::nat) mod 10000 \<noteq> 5000
   \<and> toMB 12345678 = round2 (12345678 / 1000000)
   \<and> toMB 12345678 = Number2 1235
   \<and> 0 \<le> toMB 12345678"
  using toMB_rounding [of 12345678] by simp

section \<open>Properties of traces and messages\<close>

lemma outcomes_append: "outcomes (xs @ ys) = outcomes xs @ outcomes ys"
  by (induction xs rule: outcomes.induct) simp_all

lemma exit_codes_append: "exit_codes (xs @ ys) = exit_codes xs @ exit_codes ys"
  by (induction xs rule: exit_codes.induct) simp_all

lemma outcomes_colorizedLog [simp]: "outcomes (colorizedLog env c t m) = []"
  by (simp add: colorizedLog_def split: option.splits)

lemma exit_codes_colorizedLog [simp]: "exit_codes (colorizedLog env c t m) = []"
  by (simp add: colorizedLog_def split: option.splits)

lemmas log_defs = errorLog_def warningLog_def infoLog_def

lemma render_mentions:
  assumes "Num x \<in> set msg"
  shows "sublist (NumberToString h x) (render h msg)"
proof -
  from assms obtain ys zs where "msg = ys @ Num x # zs" by (auto simp: in_set_conv_decomp)
  then have "render h msg = render h ys @ NumberToString h x @ render h zs"
    by (simp add: render_def)
  then show ?thesis unfolding sublist_def by blast
qed

lemma contains_valueI: "Num x \<in> set msg \<Longrightarrow> contains_value h msg x"
  by (simp add: contains_value_def render_mentions)

lemma checkBundleSizes_outcomes:
  "outcomes (checkBundleSizes env limit m) =
     [if truthy limit \<and> js_gt m limit then Error (ERROR_BUNDLE_SIZE_TXT m limit)
      else Info (INFO_BUNDLE_SIZE_TXT m limit)]"
  by (simp add: checkBundleSizes_def log_defs)

lemma checkNodeModulesSize_outcomes:
  "outcomes (checkNodeModulesSize env limit m) =
     [if truthy limit \<and> js_gt m limit then Error (ERROR_NODE_MODULE_SIZE_TXT m limit)
      else Info (INFO_NODE_MODULE_SIZE_TXT m limit)]"
  by (simp add: checkNodeModulesSize_def log_defs)

lemma decimal_10: "decimal 10 = ''10''"
  by (simp add: decimal.simps)

lemma decimal_11: "decimal 11 = ''11''"
  by (simp add: decimal.simps)

lemma decimal_12: "decimal 12 = ''12''"
  by (simp add: decimal.simps)

section \<open>The size checks against their limits\<close>

text \<open>
  C1, as amended. \<open>checkBundleSizes\<close> and \<open>checkNodeModulesSize\<close> behave alike. With
  no limit configured the outcome is informational, whatever was measured. With a limit
  that is configured and not zero, a measured value above it gives an error whose message
  contains the measured value and the limit. With any configured limit, a measured value
  at or below it gives an informational outcome.
\<close>

theorem threshold_check:
  "outcomes (checkBundleSizes env None m) = [Info (INFO_BUNDLE_SIZE_TXT m None)]
   \<and> outcomes (checkNodeModulesSize env None m) = [Info (INFO_NODE_MODULE_SIZE_TXT m None)]
   \<and> (l \<noteq> 0 \<and> l < m \<longrightarrow>
        outcomes (checkBundleSizes env (Some l) m) = [Error (ERROR_BUNDLE_SIZE_TXT m (Some l))]
        \<and> contains_value h (ERROR_BUNDLE_SIZE_TXT m (Some l)) m
        \<and> contains_value h (ERROR_BUNDLE_SIZE_TXT m (Some l)) l
        \<and> outcomes (checkNodeModulesSize env (Some l) m)
            = [Error (ERROR_NODE_MODULE_SIZE_TXT m (Some l))]
        \<and> contains_value h (ERROR_NODE_MODULE_SIZE_TXT m (Some l)) m
        \<and> contains_value h (ERROR_NODE_MODULE_SIZE_TXT m (Some l)) l)
   \<and> (m \<le> l \<longrightarrow>
        outcomes (checkBundleSizes env (Some l) m) = [Info (INFO_BUNDLE_SIZE_TXT m (Some l))]
        \<and> outcomes (checkNodeModulesSize env (Some l) m)
            = [Info (INFO_NODE_MODULE_SIZE_TXT m (Some l))])"
proof -
  have "contains_value h (ERROR_BUNDLE_SIZE_TXT m (Some l)) m"
       "contains_value h (ERROR_BUNDLE_SIZE_TXT m (Some l)) l"
    by (rule contains_valueI, simp add: ERROR_BUNDLE_SIZE_TXT_def opt_def)+
  moreover have "contains_value h (ERROR_NODE_MODULE_SIZE_TXT m (Some l)) m"
       "contains_value h (ERROR_NODE_MODULE_SIZE_TXT m (Some l)) l"
    by (rule contains_valueI, simp add: ERROR_NODE_MODULE_SIZE_TXT_def opt_def)+
  ultimately show ?thesis
    by (simp add: checkBundleSizes_outcomes checkNodeModulesSize_outcomes truthy_def js_gt_def)
qed

text \<open>
  The scenario of the repository's test, a bundle of 12 MB against a limit of 10 MB, and a
  dependency tree of 9 MB against the same limit.
\<close>

theorem threshold_check_witness:
  "((10::rat) \<noteq> 0 \<and> (10::rat) < 12)
   \<and> outcomes (checkBundleSizes (Some ''true'') (Some 10) 12) = [Error (ERROR_BUNDLE_SIZE_TXT 12 (Some 10))]
   \<and> contains_value host0 (ERROR_BUNDLE_SIZE_TXT 12 (Some 10)) 12
   \<and> contains_value host0 (ERROR_BUNDLE_SIZE_TXT 12 (Some 10)) 10
   \<and> render host0 (ERROR_BUNDLE_SIZE_TXT 12 (Some 10))
       = ''\<newline>Bundle size is about 12MB exedeed 10MB\<newline>''
   \<and> (9::rat) \<le> 10
   \<and> outcomes (checkNodeModulesSize (Some ''true'') (Some 10) 9)
       = [Info (INFO_NODE_MODULE_SIZE_TXT 9 (Some 10))]"
  using threshold_check [of "Some ''true''" 12 10 host0] threshold_check [of "Some ''true''" 9 10 host0]
  by (simp add: render_def ERROR_BUNDLE_SIZE_TXT_def opt_def NumberToString_def decimal_10 decimal_12)

text \<open>
  C1 as stated fails for the configured limit 0: 5 MB is above it, and the outcome of
  either check is informational, because the guard \<open>limit && measured > limit\<close> treats
  0 as no limit.
\<close>

theorem threshold_check_counterexample:
  "js_gt 5 (Some 0)
   \<and> outcomes (checkBundleSizes None (Some 0) 5) = [Info (INFO_BUNDLE_SIZE_TXT 5 (Some 0))]
   \<and> outcomes (checkNodeModulesSize None (Some 0) 5) = [Info (INFO_NODE_MODULE_SIZE_TXT 5 (Some 0))]"
  by (simp add: checkBundleSizes_outcomes checkNodeModulesSize_outcomes truthy_def js_gt_def)

text \<open>
  C9. A limit configured as 0 behaves as no limit: both size checks give an informational
  outcome for every measured value, and \<open>checkNbOfNodeModulesDeps\<close> with maximum 0
  returns at once, with no import of the manifest and no outcome.
\<close>

theorem zero_limit_is_no_limit:
  "outcomes (checkBundleSizes env (Some 0) m) = [Info (INFO_BUNDLE_SIZE_TXT m (Some 0))]
   \<and> outcomes (checkNodeModulesSize env (Some 0) m) = [Info (INFO_NODE_MODULE_SIZE_TXT m (Some 0))]
   \<and> checkNbOfNodeModulesDeps env (Some 0) appRoot manifest = ([], Fulfilled)"
  by (simp add: checkBundleSizes_outcomes checkNodeModulesSize_outcomes
      checkNbOfNodeModulesDeps_def truthy_def)

text \<open>At 5 MB, which is above 0.\<close>

theorem zero_limit_is_no_limit_witness:
  "js_gt 5 (Some 0)
   \<and> outcomes (checkBundleSizes (Some ''true'') (Some 0) 5) = [Info (INFO_BUNDLE_SIZE_TXT 5 (Some 0))]
   \<and> outcomes (checkNodeModulesSize (Some ''true'') (Some 0) 5)
       = [Info (INFO_NODE_MODULE_SIZE_TXT 5 (Some 0))]
   \<and> checkNbOfNodeModulesDeps (Some ''true'') (Some 0) ''/app'' (Some manifest0) = ([], Fulfilled)"
  using zero_limit_is_no_limit [of "Some ''true''" 5 "''/app''" "Some manifest0"]
  by (simp add: js_gt_def)

section \<open>The number of dependencies\<close>

lemma checkNb_outcomes:
  assumes "truthy limit"
  shows "outcomes (fst (checkNbOfNodeModulesDeps env limit appRoot (Some p))) =
           [if js_gt (of_nat (nbOfNodeModulesDeps p)) limit
            then Error (ERROR_NODE_MODULE_NB_TXT (of_nat (nbOfNodeModulesDeps p)) limit)
            else Info (INFO_NODE_MODULE_NB_TXT (of_nat (nbOfNodeModulesDeps p)) limit)]"
  using assms by (simp add: checkNbOfNodeModulesDeps_def Let_def log_defs)

lemma render_11_10:
  "render h (ERROR_NODE_MODULE_NB_TXT 11 (Some 10))
     = ''\<newline>Too many node modules installed, 11/10 did you add some ?\<newline>''"
  by (simp add: render_def ERROR_NODE_MODULE_NB_TXT_def opt_def NumberToString_def
      decimal_10 decimal_11)

lemma states_11_10:
  "sublist ''11/10'' ''\<newline>Too many node modules installed, 11/10 did you add some ?\<newline>''"
  by code_simp

text \<open>
  C7. The number compared with the maximum, and printed, is the number of keys of
  \<open>dependencies\<close> plus the number of keys of \<open>devDependencies\<close>. For a manifest with
  6 and 5 entries and the maximum 10, the outcome is an error whose message states
  \<open>11/10\<close>.
\<close>

theorem dependency_count:
  "(truthy limit \<longrightarrow>
      outcomes (fst (checkNbOfNodeModulesDeps env limit appRoot (Some p))) =
        [if js_gt (of_nat (length (Object_keys (orDefault [] (dependencies p)))
                           + length (Object_keys (orDefault [] (devDependencies p))))) limit
         then Error (ERROR_NODE_MODULE_NB_TXT
                 (of_nat (length (Object_keys (orDefault [] (dependencies p)))
                          + length (Object_keys (orDefault [] (devDependencies p))))) limit)
         else Info (INFO_NODE_MODULE_NB_TXT
                 (of_nat (length (Object_keys (orDefault [] (dependencies p)))
                          + length (Object_keys (orDefault [] (devDependencies p))))) limit)])
   \<and> (dependencies p = Some ds \<and> devDependencies p = Some vs
        \<and> length (Object_keys ds) = 6 \<and> length (Object_keys vs) = 5 \<longrightarrow>
        outcomes (fst (checkNbOfNodeModulesDeps env (Some 10) appRoot (Some p)))
          = [Error (ERROR_NODE_MODULE_NB_TXT 11 (Some 10))]
        \<and> sublist ''11/10'' (render h (ERROR_NODE_MODULE_NB_TXT 11 (Some 10))))"
proof -
  have "truthy (Some 10)" by (simp add: truthy_def)
  from checkNb_outcomes [OF this]
  have "dependencies p = Some ds \<and> devDependencies p = Some vs
        \<and> length (Object_keys ds) = 6 \<and> length (Object_keys vs) = 5 \<longrightarrow>
        outcomes (fst (checkNbOfNodeModulesDeps env (Some 10) appRoot (Some p)))
          = [Error (ERROR_NODE_MODULE_NB_TXT 11 (Some 10))]"
    by (simp add: nbOfNodeModulesDeps_def orDefault_def js_gt_def)
  moreover have "sublist ''11/10'' (render h (ERROR_NODE_MODULE_NB_TXT 11 (Some 10)))"
    unfolding render_11_10 by (rule states_11_10)
  moreover have "truthy limit \<longrightarrow>
      outcomes (fst (checkNbOfNodeModulesDeps env limit appRoot (Some p))) =
        [if js_gt (of_nat (nbOfNodeModulesDeps p)) limit
            then Error (ERROR_NODE_MODULE_NB_TXT (of_nat (nbOfNodeModulesDeps p)) limit)
            else Info (INFO_NODE_MODULE_NB_TXT (of_nat (nbOfNodeModulesDeps p)) limit)]"
    using checkNb_outcomes by blast
  ultimately show ?thesis unfolding nbOfNodeModulesDeps_def by blast
qed

text \<open>A manifest with six runtime and five development entries.\<close>

theorem dependency_count_witness:
  "truthy (Some 10)
   \<and> dependencies manifest0 \<noteq> None \<and> devDependencies manifest0 \<noteq> None
   \<and> length (Object_keys (the (dependencies manifest0))) = 6
   \<and> length (Object_keys (the (devDependencies manifest0))) = 5
   \<and> outcomes (fst (checkNbOfNodeModulesDeps (Some ''true'') (Some 10) ''/app'' (Some manifest0)))
       = [Error (ERROR_NODE_MODULE_NB_TXT 11 (Some 10))]
   \<and> render host0 (ERROR_NODE_MODULE_NB_TXT 11 (Some 10))
       = ''\<newline>Too many node modules installed, 11/10 did you add some ?\<newline>''"
  using dependency_count [of "Some 10" "Some ''true''" "''/app''" manifest0
      "the (dependencies manifest0)" "the (devDependencies manifest0)" host0]
  by (simp add: manifest0_def Object_keys_def truthy_def render_11_10 orDefault_def js_gt_def)

section \<open>The interval callback\<close>

lemma tick_fatal:
  assumes "js_gt (toMB rss) e"
  shows "tick env w e rss now i =
           (Next (Error (ERROR_MEMORY_CONSUMPTION_TXT now (toMB rss) e))
            # errorLog env (ERROR_MEMORY_CONSUMPTION_TXT now (toMB rss) e) @ [Exit 1], i)"
  using assms by (simp add: tick_def Let_def)

lemma tick_not_fatal:
  assumes "\<not> js_gt (toMB rss) e"
  shows "tick env w e rss now i =
           ((if js_gt (toMB rss) w then [Debounced (toMB rss) w] else []),
            (if tmpMaxMemoryConsumption i < toMB rss
             then i\<lparr>tmpMaxMemoryConsumption := toMB rss, dateMaxMemoryConsumption := now\<rparr>
             else i))"
  using assms by (simp add: tick_def Let_def)

lemma exit_codes_tick:
  "exit_codes (fst (tick env w e rss now i)) = (if js_gt (toMB rss) e then [1] else [])"
  by (simp add: tick_fatal tick_not_fatal exit_codes_append log_defs)

lemma exit_codes_checkBundleSizes [simp]: "exit_codes (checkBundleSizes env limit m) = []"
  by (simp add: checkBundleSizes_def log_defs)

lemma exit_codes_checkNodeModulesSize [simp]: "exit_codes (checkNodeModulesSize env limit m) = []"
  by (simp add: checkNodeModulesSize_def log_defs)

lemma exit_codes_checkNb [simp]:
  "exit_codes (fst (checkNbOfNodeModulesDeps env limit appRoot manifest)) = []"
  by (simp add: checkNbOfNodeModulesDeps_def Let_def log_defs split: option.splits)

lemma exit_codes_warningMemoryLimit [simp]: "exit_codes (warningMemoryLimit env now m limit) = []"
  by (simp add: warningMemoryLimit_def log_defs)

lemma exit_codes_checkMemoryUsage [simp]: "exit_codes (fst (checkMemoryUsage w e ivl now h)) = []"
  by (simp add: checkMemoryUsage_def)

lemma monitoring_effects:
  "fst (monitoring options env now h appRoot manifest) =
     (if orDefault 4500 (MEMORY_ERROR_MAX_SIZE options) < orDefault 2950 (MEMORY_WARNING_MAX_SIZE options)
      then Next (Error WARNING_ABOVE_ERROR_TXT)
           # errorLog (if orDefault True (LOG options) then Some ''true'' else env) WARNING_ABOVE_ERROR_TXT
      else [])
     @ SetInterval h (Some (orDefault 2950 (MEMORY_WARNING_MAX_SIZE options)))
         (Some (orDefault 4500 (MEMORY_ERROR_MAX_SIZE options)))
         (Some (orDefault 350 (INTERVAL_CHECK_MEMORY options)))
     # fst (checkNbOfNodeModulesDeps (if orDefault True (LOG options) then Some ''true'' else env)
            (NB_NODE_MODULES_MAX options) appRoot manifest)"
  by (simp add: monitoring_def Let_def checkMemoryUsage_def split: prod.splits)

lemma exit_codes_monitoring [simp]:
  "exit_codes (fst (monitoring options env now h appRoot manifest)) = []"
  by (simp add: monitoring_effects exit_codes_append log_defs)

lemma exit_codes_finalCallback [simp]:
  "exit_codes (fst (finalCallback options env i b n)) = []"
  by (simp add: finalCallback_def Let_def exit_codes_append log_defs split: option.splits)

text \<open>
  C3. A tick whose sample, in MB, is above the fatal threshold publishes an error that
  carries the sample and the limit and then calls \<open>process.exit\<close> with code 1; no
  tick calls it with code 0; a tick whose sample is not above the fatal threshold does not
  call it, and neither does any other function of the plugin.
\<close>

theorem fatal_path:
  "(f < toMB rss \<longrightarrow>
      fst (tick env w (Some f) rss now i) =
        Next (Error (ERROR_MEMORY_CONSUMPTION_TXT now (toMB rss) (Some f)))
        # errorLog env (ERROR_MEMORY_CONSUMPTION_TXT now (toMB rss) (Some f)) @ [Exit 1]
      \<and> outcomes (fst (tick env w (Some f) rss now i))
          = [Error (ERROR_MEMORY_CONSUMPTION_TXT now (toMB rss) (Some f))]
      \<and> contains_value h (ERROR_MEMORY_CONSUMPTION_TXT now (toMB rss) (Some f)) (toMB rss)
      \<and> contains_value h (ERROR_MEMORY_CONSUMPTION_TXT now (toMB rss) (Some f)) f
      \<and> exit_codes (fst (tick env w (Some f) rss now i)) = [1])
   \<and> (\<not> js_gt (toMB rss) e \<longrightarrow> exit_codes (fst (tick env w e rss now i)) = [])
   \<and> 0 \<notin> set (exit_codes (fst (tick env w e rss now i)))
   \<and> exit_codes (fst (monitoring options env now hdl appRoot manifest)) = []
   \<and> exit_codes (fst (checkMemoryUsage w e ivl now hdl)) = []
   \<and> exit_codes (fst (checkNbOfNodeModulesDeps env limit appRoot manifest)) = []
   \<and> exit_codes (warningMemoryLimit env now m w) = []
   \<and> exit_codes (fst (finalCallback options env i b n)) = []
   \<and> exit_codes (checkNodeModulesSize env limit m) = []
   \<and> exit_codes (checkBundleSizes env limit m) = []"
proof -
  have "contains_value h (ERROR_MEMORY_CONSUMPTION_TXT now (toMB rss) (Some f)) (toMB rss)"
       "contains_value h (ERROR_MEMORY_CONSUMPTION_TXT now (toMB rss) (Some f)) f"
    by (rule contains_valueI, simp add: ERROR_MEMORY_CONSUMPTION_TXT_def opt_def)+
  moreover have "f < toMB rss \<longrightarrow> outcomes (fst (tick env w (Some f) rss now i))
          = [Error (ERROR_MEMORY_CONSUMPTION_TXT now (toMB rss) (Some f))]"
    by (simp add: tick_fatal js_gt_def outcomes_append log_defs)
  moreover have "f < toMB rss \<longrightarrow> fst (tick env w (Some f) rss now i) =
        Next (Error (ERROR_MEMORY_CONSUMPTION_TXT now (toMB rss) (Some f)))
        # errorLog env (ERROR_MEMORY_CONSUMPTION_TXT now (toMB rss) (Some f)) @ [Exit 1]"
    by (simp add: tick_fatal js_gt_def)
  ultimately show ?thesis
    by (simp add: exit_codes_tick js_gt_def outcomes_append exit_codes_append log_defs)
qed

text \<open>
  The repository's tests: 1500 MB against the fatal threshold 1000, and 150 MB against
  1500.
\<close>

theorem fatal_path_witness:
  "(1000::rat) < toMB 1500000000
   \<and> outcomes (fst (tick (Some ''true'') (Some 100) (Some 1000) 1500000000 7 infos0))
       = [Error (ERROR_MEMORY_CONSUMPTION_TXT 7 1500 (Some 1000))]
   \<and> exit_codes (fst (tick (Some ''true'') (Some 100) (Some 1000) 1500000000 7 infos0)) = [1]
   \<and> \<not> js_gt (toMB 150000000) (Some 1500)
   \<and> exit_codes (fst (tick (Some ''true'') (Some 100) (Some 1500) 150000000 7 infos0)) = []"
proof -
  have a: "toMB 1500000000 = 1500" using toMB_MB [of 1500] by simp
  have b: "toMB 150000000 = 150" using toMB_MB [of 150] by simp
  show ?thesis
    using fatal_path [of 1000 1500000000 "Some ''true''" "Some 100" 7 infos0 host0 "Some 1000"]
      fatal_path [of 1500 150000000 "Some ''true''" "Some 100" 7 infos0 host0 "Some 1500"]
    by (simp add: a b js_gt_def outcomes_append exit_codes_append log_defs)
qed

subsection \<open>The warning path\<close>

text \<open>
  A tick that is not fatal calls the debounced function once, with the sample and the
  warning threshold, exactly when the sample is above that threshold. The function that
  is debounced publishes one warning, built from both; it does not end the process.
\<close>

lemma tick_warning_call:
  assumes "\<not> js_gt (toMB rss) e"
  shows "fst (tick env w e rss now i) = (if js_gt (toMB rss) w then [Debounced (toMB rss) w] else [])"
  using assms by (simp add: tick_not_fatal)

lemma outcomes_warningMemoryLimit:
  "outcomes (warningMemoryLimit env now m limit)
     = [Warning (WARNING_MEMORY_CONSUMPTION_TXT now m limit)]"
  by (simp add: warningMemoryLimit_def log_defs)

section \<open>Sessions\<close>

lemma perform_all_append: "perform_all (xs @ ys) s = perform_all ys (perform_all xs s)"
  by (induction xs arbitrary: s) simp_all

lemma shared_perform [simp]: "shared (perform x s) = shared s"
  by (cases x) simp_all

lemma shared_perform_all [simp]: "shared (perform_all es s) = shared s"
  by (induction es arbitrary: s) simp_all

lemma logEnabled_perform [simp]: "logEnabled (perform x s) = logEnabled s"
  by (cases x) simp_all

lemma logEnabled_perform_all [simp]: "logEnabled (perform_all es s) = logEnabled s"
  by (induction es arbitrary: s) simp_all

lemma opts_perform [simp]: "opts (perform x s) = opts s"
  by (cases x) simp_all

lemma opts_perform_all [simp]: "opts (perform_all es s) = opts s"
  by (induction es arbitrary: s) simp_all

lemma exited_perform_all:
  "exited (perform_all es s) = (if exit_codes es = [] then exited s else Some (last (exit_codes es)))"
proof (induction es arbitrary: s)
  case Nil
  then show ?case by simp
next
  case (Cons x es)
  then show ?case by (cases x) simp_all
qed

lemma timers_perform: "timers (perform x s) = schedule x (timers s)"
  by (cases x) simp_all

lemma timers_perform_all: "timers (perform_all es s) = fold schedule es (timers s)"
  by (induction es arbitrary: s) (simp_all add: timers_perform)

lemma schedule_colorizedLog [simp]: "fold schedule (colorizedLog env c t m) ts = ts"
  by (simp add: colorizedLog_def split: option.splits)

lemma schedule_tick [simp]: "fold schedule (fst (tick env w e rss now i)) ts = ts"
  by (simp add: tick_def Let_def log_defs)

lemma schedule_checkBundleSizes [simp]: "fold schedule (checkBundleSizes env limit m) ts = ts"
  by (simp add: checkBundleSizes_def log_defs)

lemma schedule_checkNodeModulesSize [simp]:
  "fold schedule (checkNodeModulesSize env limit m) ts = ts"
  by (simp add: checkNodeModulesSize_def log_defs)

lemma schedule_checkNb [simp]:
  "fold schedule (fst (checkNbOfNodeModulesDeps env limit appRoot manifest)) ts = ts"
  by (simp add: checkNbOfNodeModulesDeps_def Let_def log_defs split: option.splits)

lemma schedule_finalCallback:
  "fold schedule (fst (finalCallback options env i b n)) ts
     = filter (\<lambda>t. Some (fst t) \<noteq> interval i) ts"
  by (simp add: finalCallback_def Let_def log_defs split: option.splits)


lemma monitoring_infos:
  "snd (snd (monitoring options env now h appRoot manifest))
     = \<lparr>interval = Some h, tmpMaxMemoryConsumption = 0, dateMaxMemoryConsumption = now\<rparr>"
  by (simp add: monitoring_def Let_def checkMemoryUsage_def split: prod.splits)

lemma timers_start:
  "timers (start options env now h appRoot manifest)
     = [(h, Some (orDefault 2950 (MEMORY_WARNING_MAX_SIZE options)),
            Some (orDefault 4500 (MEMORY_ERROR_MAX_SIZE options)))]"
  by (simp add: start_def split_beta timers_perform_all monitoring_effects log_defs)

lemma shared_start:
  "shared (start options env now h appRoot manifest)
     = \<lparr>interval = Some h, tmpMaxMemoryConsumption = 0, dateMaxMemoryConsumption = now\<rparr>"
  by (simp add: start_def split_beta monitoring_infos)

lemma exited_start: "exited (start options env now h appRoot manifest) = None"
  by (simp add: start_def split_beta exited_perform_all)

subsection \<open>Steps\<close>

lemma run_exited: "exited s \<noteq> None \<Longrightarrow> run evs s = s"
proof (induction evs)
  case Nil
  then show ?case by simp
next
  case (Cons ev evs)
  then have "step ev s = s" by (cases ev) auto
  with Cons show ?case by simp
qed

lemma run_append: "run (xs @ ys) s = run ys (run xs s)"
  by (induction xs arbitrary: s) simp_all

lemma tick_interval [simp]: "interval (snd (tick env w e rss now i)) = interval i"
  by (simp add: tick_def Let_def)

lemma tick_mono:
  "tmpMaxMemoryConsumption i \<le> tmpMaxMemoryConsumption (snd (tick env w e rss now i))"
  by (simp add: tick_def Let_def)

lemma ticks_mono:
  "tmpMaxMemoryConsumption i \<le> tmpMaxMemoryConsumption (snd (ticks env w e rs i))"
proof (induction rs arbitrary: i)
  case Nil
  then show ?case by simp
next
  case (Cons r rs)
  obtain rss now where r: "r = (rss, now)" by (cases r)
  obtain es i' where t: "tick env w e rss now i = (es, i')" by (cases "tick env w e rss now i")
  have a: "tmpMaxMemoryConsumption i \<le> tmpMaxMemoryConsumption i'"
    using tick_mono [of i env w e rss now] t by simp
  have b: "tmpMaxMemoryConsumption i' \<le> tmpMaxMemoryConsumption (snd (ticks env w e rs i'))"
    by (rule Cons.IH)
  show ?case using a b by (simp add: r t split: prod.splits) (metis order_trans snd_conv)
qed

lemma step_mono:
  "tmpMaxMemoryConsumption (shared s) \<le> tmpMaxMemoryConsumption (shared (step ev s))"
proof (cases ev)
  case (Fire h rss now)
  then show ?thesis
    using tick_mono [of "shared s"]
    by (auto simp: split: option.splits prod.splits) (metis snd_conv)
next
  case (WriteBundle b n)
  then show ?thesis by simp
qed

lemma run_mono:
  "tmpMaxMemoryConsumption (shared s) \<le> tmpMaxMemoryConsumption (shared (run evs s))"
proof (induction evs arbitrary: s)
  case Nil
  then show ?case by simp
next
  case (Cons ev evs)
  from step_mono [of s ev] Cons.IH [of "step ev s"] show ?case by simp
qed

lemma step_exited: "exited s \<noteq> None \<Longrightarrow> step ev s = s"
  by (cases ev) auto

lemma step_Fire:
  assumes "exited s = None" "map_of (timers s) h = Some (w, e)"
  shows "step (Fire h rss now) s
           = perform_all (fst (tick (logEnabled s) w e rss now (shared s)))
               (s\<lparr>shared := snd (tick (logEnabled s) w e rss now (shared s))\<rparr>)"
  using assms by (simp add: split_beta)

lemma step_Fire_cleared: "map_of (timers s) h = None \<Longrightarrow> step (Fire h rss now) s = s"
  by simp

lemma step_WriteBundle:
  assumes "exited s = None"
  shows "step (WriteBundle b n) s
           = perform_all (fst (finalCallback (opts s) (logEnabled s) (shared s) b n)) s"
  using assms by simp

declare step.simps [simp del]

lemma step_fatal:
  assumes "exited s = None" "map_of (timers s) h = Some (w, e)" "js_gt (toMB rss) e"
  shows "shared (step (Fire h rss now) s) = shared s \<and> exited (step (Fire h rss now) s) = Some 1"
  using assms by (simp add: step_Fire tick_fatal exited_perform_all exit_codes_append log_defs)

lemma last_tick_fatal:
  assumes "js_gt (toMB rss) e"
  shows "last (fst (tick env w e rss now i)) = Exit 1"
  using assms by (simp add: tick_fatal)

text \<open>
  C10. On a tick whose sample is above the fatal threshold the record is unchanged:
  \<open>process.exit\<close> is the last thing the callback does, the running maximum and its
  date keep their values, and no later event of the session changes them.
\<close>

theorem fatal_tick_keeps_state:
  "js_gt (toMB rss) e \<longrightarrow>
     snd (tick env w e rss now i) = i
     \<and> last (fst (tick env w e rss now i)) = Exit 1
     \<and> tmpMaxMemoryConsumption (snd (tick env w e rss now i)) = tmpMaxMemoryConsumption i
     \<and> dateMaxMemoryConsumption (snd (tick env w e rss now i)) = dateMaxMemoryConsumption i
     \<and> (exited s = None \<and> map_of (timers s) hdl = Some (w, e) \<longrightarrow>
          exited (step (Fire hdl rss now) s) = Some 1
          \<and> shared (step (Fire hdl rss now) s) = shared s
          \<and> shared (run evs (step (Fire hdl rss now) s)) = shared s)"
proof (intro impI conjI)
  assume f: "js_gt (toMB rss) e"
  show "snd (tick env w e rss now i) = i" using f by (simp add: tick_fatal)
  then show "tmpMaxMemoryConsumption (snd (tick env w e rss now i)) = tmpMaxMemoryConsumption i"
    and "dateMaxMemoryConsumption (snd (tick env w e rss now i)) = dateMaxMemoryConsumption i"
    by simp_all
  show "last (fst (tick env w e rss now i)) = Exit 1" using f by (rule last_tick_fatal)
  assume s: "exited s = None \<and> map_of (timers s) hdl = Some (w, e)"
  from step_fatal [of s hdl w e rss now] s f
  have a: "shared (step (Fire hdl rss now) s) = shared s"
    and b: "exited (step (Fire hdl rss now) s) = Some 1" by simp_all
  show "exited (step (Fire hdl rss now) s) = Some 1" by (rule b)
  show "shared (step (Fire hdl rss now) s) = shared s" by (rule a)
  have "run evs (step (Fire hdl rss now) s) = step (Fire hdl rss now) s"
    by (rule run_exited) (simp add: b)
  then show "shared (run evs (step (Fire hdl rss now) s)) = shared s" by (simp add: a)
qed

lemma toMB_1500: "toMB 1500000000 = 1500"
  using toMB_MB [of 1500] by simp

lemma session0_facts:
  "exited session0 = None" "map_of (timers session0) 3 = Some (Some 100, Some 1000)"
  "shared session0 = \<lparr>interval = Some 3, tmpMaxMemoryConsumption = 0, dateMaxMemoryConsumption = 0\<rparr>"
  by (simp_all add: session0_def exited_start timers_start shared_start options0_def orDefault_def)

text \<open>The first tick of a session reads 1500 MB against the fatal threshold 1000.\<close>

theorem fatal_tick_keeps_state_witness:
  "js_gt (toMB 1500000000) (Some 1000)
   \<and> exited session0 = None \<and> map_of (timers session0) 3 = Some (Some 100, Some 1000)
   \<and> snd (tick (Some ''true'') (Some 100) (Some 1000) 1500000000 7 infos0) = infos0
   \<and> tmpMaxMemoryConsumption (shared (step (Fire 3 1500000000 7) session0)) = 0
   \<and> dateMaxMemoryConsumption (shared (step (Fire 3 1500000000 7) session0)) = 0
   \<and> exited (step (Fire 3 1500000000 7) session0) = Some 1
   \<and> shared (run [Fire 3 1600000000 8] (step (Fire 3 1500000000 7) session0)) = shared session0"
  using fatal_tick_keeps_state [of 1500000000 "Some 1000" "Some ''true''" "Some 100" 7 infos0
      session0 3 "[Fire 3 1600000000 8]"]
  by (simp add: toMB_1500 js_gt_def session0_facts)

section \<open>The running maximum\<close>

lemma js_gt_mono: "js_gt x e \<Longrightarrow> x \<le> y \<Longrightarrow> js_gt y e"
  by (auto simp: js_gt_def split: option.splits)

lemma snd_ticks_Cons:
  assumes "\<not> js_gt (toMB rss) e"
  shows "snd (ticks env w e ((rss, now) # rest) i)
           = snd (ticks env w e rest
                (if tmpMaxMemoryConsumption i < toMB rss
                 then i\<lparr>tmpMaxMemoryConsumption := toMB rss, dateMaxMemoryConsumption := now\<rparr>
                 else i))"
  using assms by (simp add: tick_not_fatal split_beta)

lemma snd_ticks_fatal:
  assumes "js_gt (toMB rss) e"
  shows "snd (ticks env w e ((rss, now) # rest) i) = i"
  using assms by (simp add: tick_fatal exit_codes_append log_defs)

lemma snd_ticks_Nil: "snd (ticks env w e [] i) = i"
  by simp

declare ticks.simps [simp del]

lemma toMB_samples:
  "toMB 50000000 = 50" "toMB 200000000 = 200" "toMB 80000000 = 80" "toMB 300000000 = 300"
  "toMB 100000000 = 100" "toMB 150000000 = 150"
  using toMB_MB [of 50] toMB_MB [of 200] toMB_MB [of 80] toMB_MB [of 300] toMB_MB [of 100]
    toMB_MB [of 150]
  by simp_all

lemma ratchet_example:
  assumes "\<not> js_gt 300 e"
  shows "snd (ticks env w e
            [(50000000, t1), (200000000, t2), (80000000, t3), (300000000, t4), (100000000, t5)]
            (snd (checkMemoryUsage w e ivl t0 hdl)))
         = \<lparr>interval = Some hdl, tmpMaxMemoryConsumption = 300, dateMaxMemoryConsumption = t4\<rparr>"
proof -
  have nf: "\<not> js_gt 50 e" "\<not> js_gt 200 e" "\<not> js_gt 80 e" "\<not> js_gt 100 e"
    using assms js_gt_mono [of _ e 300] by fastforce+
  show ?thesis
    using assms nf by (simp add: snd_ticks_Cons snd_ticks_Nil toMB_samples checkMemoryUsage_def)
qed

text \<open>
  C2, as amended. On every tick that is not fatal, the stored maximum and its date are
  replaced by the sample and the time of the tick if the sample is above the stored
  maximum, and are left alone otherwise. On every tick, over every run of ticks and over
  every run of a session the stored maximum does not decrease. When 300 MB is not above
  the fatal threshold, the readings 50, 200, 80, 300 and 100 MB after the start leave the
  maximum 300 with the date of the fourth tick.
\<close>

theorem running_maximum:
  "(\<not> js_gt (toMB rss) e \<longrightarrow>
      snd (tick env w e rss now i) =
        (if tmpMaxMemoryConsumption i < toMB rss
         then i\<lparr>tmpMaxMemoryConsumption := toMB rss, dateMaxMemoryConsumption := now\<rparr>
         else i))
   \<and> tmpMaxMemoryConsumption i \<le> tmpMaxMemoryConsumption (snd (tick env w e rss now i))
   \<and> tmpMaxMemoryConsumption i \<le> tmpMaxMemoryConsumption (snd (ticks env w e rs i))
   \<and> tmpMaxMemoryConsumption (shared s) \<le> tmpMaxMemoryConsumption (shared (run evs s))
   \<and> (\<not> js_gt 300 e \<longrightarrow>
        tmpMaxMemoryConsumption
          (snd (ticks env w e
             [(50000000, t1), (200000000, t2), (80000000, t3), (300000000, t4), (100000000, t5)]
             (snd (checkMemoryUsage w e ivl t0 hdl)))) = 300
        \<and> dateMaxMemoryConsumption
          (snd (ticks env w e
             [(50000000, t1), (200000000, t2), (80000000, t3), (300000000, t4), (100000000, t5)]
             (snd (checkMemoryUsage w e ivl t0 hdl)))) = t4)"
  using tick_mono [of i env w e rss now] ticks_mono [of i env w e rs] run_mono [of s evs]
  by (simp add: tick_not_fatal ratchet_example)

text \<open>A reading of 150 MB, and the five readings, against the fatal threshold 1000.\<close>

theorem running_maximum_witness:
  "\<not> js_gt (toMB 150000000) (Some 1000)
   \<and> snd (tick (Some ''true'') (Some 100) (Some 1000) 150000000 7 infos0)
       = infos0\<lparr>tmpMaxMemoryConsumption := 150, dateMaxMemoryConsumption := 7\<rparr>
   \<and> \<not> js_gt 300 (Some 1000)
   \<and> tmpMaxMemoryConsumption
        (snd (ticks (Some ''true'') (Some 100) (Some 1000)
           [(50000000, 11), (200000000, 12), (80000000, 13), (300000000, 14), (100000000, 15)]
           (snd (checkMemoryUsage (Some 100) (Some 1000) None 0 3)))) = 300
   \<and> dateMaxMemoryConsumption
        (snd (ticks (Some ''true'') (Some 100) (Some 1000)
           [(50000000, 11), (200000000, 12), (80000000, 13), (300000000, 14), (100000000, 15)]
           (snd (checkMemoryUsage (Some 100) (Some 1000) None 0 3)))) = 14"
  using running_maximum [of 150000000 "Some 1000" "Some ''true''" "Some 100" 7 infos0 "[]"
      session0 "[]" 11 12 13 14 15 None 0 3]
  by (simp add: toMB_samples js_gt_def infos0_def checkMemoryUsage_def)

text \<open>
  C2 as stated fails on a fatal tick: 1500 MB is above the stored maximum 0 and above
  the fatal threshold 1000, and the record is not updated. With the fatal threshold 250
  the five readings end at the fourth, and the maximum is 200.
\<close>

theorem running_maximum_counterexample:
  "tmpMaxMemoryConsumption infos0 < toMB 1500000000
   \<and> snd (tick (Some ''true'') (Some 100) (Some 1000) 1500000000 7 infos0) = infos0
   \<and> tmpMaxMemoryConsumption
        (snd (ticks (Some ''true'') (Some 100) (Some 250)
           [(50000000, 11), (200000000, 12), (80000000, 13), (300000000, 14), (100000000, 15)]
           infos0)) = 200"
proof -
  have "js_gt (toMB 1500000000) (Some 1000)" by (simp add: toMB_1500 js_gt_def)
  then have a: "snd (tick (Some ''true'') (Some 100) (Some 1000) 1500000000 7 infos0) = infos0"
    by (simp add: tick_fatal)
  have b: "tmpMaxMemoryConsumption infos0 < toMB 1500000000"
    by (simp add: toMB_1500 infos0_def checkMemoryUsage_def)
  have nf: "\<not> js_gt (toMB 50000000) (Some 250)" "\<not> js_gt (toMB 200000000) (Some 250)"
    "\<not> js_gt (toMB 80000000) (Some 250)" and f: "js_gt (toMB 300000000) (Some 250)"
    by (simp_all add: toMB_samples js_gt_def)
  have "tmpMaxMemoryConsumption
        (snd (ticks (Some ''true'') (Some 100) (Some 250)
           [(50000000, 11), (200000000, 12), (80000000, 13), (300000000, 14), (100000000, 15)]
           infos0)) = 200"
    using nf f
    by (simp add: snd_ticks_Cons snd_ticks_fatal snd_ticks_Nil toMB_samples infos0_def
        checkMemoryUsage_def)
  with a b show ?thesis by blast
qed

section \<open>The start and the end of a build\<close>



subsection \<open>Sessions reached from the start\<close>

lemma trace_perform: "trace (perform x s) = trace s @ [x]"
  by (cases x) simp_all

lemma trace_perform_all: "trace (perform_all es s) = trace s @ es"
  by (induction es arbitrary: s) (simp_all add: trace_perform)

lemma finalCallback_head:
  "\<exists>rest. fst (finalCallback options env i b n) =
     ClearInterval (interval i)
     # Next (Info (MEMORY_CONSUMPTION_TXT (tmpMaxMemoryConsumption i) (dateMaxMemoryConsumption i)))
     # rest"
  by (simp add: finalCallback_def Let_def split: option.splits)

lemma step_keeps_handle:
  assumes "interval (shared s) = Some h" "\<forall>t\<in>set (timers s). fst t = h"
  shows "interval (shared (step ev s)) = Some h \<and> (\<forall>t\<in>set (timers (step ev s)). fst t = h)"
proof (cases "exited s = None")
  case False
  then show ?thesis using assms by (simp add: step_exited)
next
  case live: True
  show ?thesis
  proof (cases ev)
    case (Fire h' rss now)
    show ?thesis
    proof (cases "map_of (timers s) h'")
      case None
      then show ?thesis using assms Fire by (simp add: step_Fire_cleared)
    next
      case (Some we)
      obtain w e where "we = (w, e)" by (cases we)
      with Some live assms Fire show ?thesis
        by (simp add: step_Fire timers_perform_all)
    qed
  next
    case (WriteBundle b n)
    with live assms show ?thesis
      by (simp add: step_WriteBundle timers_perform_all schedule_finalCallback)
  qed
qed

lemma run_keeps_handle:
  assumes "interval (shared s) = Some h" "\<forall>t\<in>set (timers s). fst t = h"
  shows "interval (shared (run evs s)) = Some h \<and> (\<forall>t\<in>set (timers (run evs s)). fst t = h)"
  using assms
proof (induction evs arbitrary: s)
  case Nil
  then show ?case by simp
next
  case (Cons ev evs)
  from step_keeps_handle [OF Cons.prems, of ev] Cons.IH [of "step ev s"]
  show ?case by simp
qed

lemma step_no_timer:
  assumes "timers s = []"
  shows "timers (step ev s) = [] \<and> shared (step ev s) = shared s"
proof (cases "exited s = None")
  case False
  then show ?thesis using assms by (simp add: step_exited)
next
  case True
  then show ?thesis
    using assms
    by (cases ev) (simp_all add: step_Fire_cleared step_WriteBundle timers_perform_all
        schedule_finalCallback)
qed

lemma run_no_timer:
  assumes "timers s = []"
  shows "shared (run evs s) = shared s"
  using assms
proof (induction evs arbitrary: s)
  case Nil
  then show ?case by simp
next
  case (Cons ev evs)
  from step_no_timer [OF Cons.prems, of ev] Cons.IH [of "step ev s"]
  show ?case by simp
qed

lemma writeBundle_clears:
  assumes "exited s = None" "interval (shared s) = Some h" "\<forall>t\<in>set (timers s). fst t = h"
  shows "timers (step (WriteBundle b n) s) = []"
  using assms
  by (simp add: step_WriteBundle timers_perform_all schedule_finalCallback filter_empty_conv)

lemma writeBundle_freezes:
  assumes "interval (shared s) = Some h" "\<forall>t\<in>set (timers s). fst t = h"
  shows "shared (run evs (step (WriteBundle b n) s)) = shared s"
proof (cases "exited s = None")
  case False
  then show ?thesis by (simp add: step_exited run_exited)
next
  case True
  from writeBundle_clears [OF True assms]
  have "shared (run evs (step (WriteBundle b n) s)) = shared (step (WriteBundle b n) s)"
    by (rule run_no_timer)
  then show ?thesis using True by (simp add: step_WriteBundle)
qed

lemma start_handle:
  "interval (shared (start options env now h appRoot manifest)) = Some h
   \<and> (\<forall>t\<in>set (timers (start options env now h appRoot manifest)). fst t = h)"
  by (simp add: shared_start timers_start)

text \<open>
  C8. \<open>finalCallback\<close> clears the interval before it reads and publishes the running
  maximum and its date. In a session, the hook leaves no timer registered, what it
  publishes is the record as it is then, and no later event changes the record.
\<close>

theorem completion_order:
  "(\<exists>rest. fst (finalCallback options env i b n) =
      ClearInterval (interval i)
      # Next (Info (MEMORY_CONSUMPTION_TXT (tmpMaxMemoryConsumption i) (dateMaxMemoryConsumption i)))
      # rest)
   \<and> (exited (run evs0 (start options env now hdl appRoot manifest)) = None \<longrightarrow>
        timers (step (WriteBundle b n) (run evs0 (start options env now hdl appRoot manifest))) = []
        \<and> (\<exists>rest. trace (step (WriteBundle b n) (run evs0 (start options env now hdl appRoot manifest)))
             = trace (run evs0 (start options env now hdl appRoot manifest))
               @ ClearInterval (Some hdl)
               # Next (Info (MEMORY_CONSUMPTION_TXT
                   (tmpMaxMemoryConsumption (shared (run evs0 (start options env now hdl appRoot manifest))))
                   (dateMaxMemoryConsumption (shared (run evs0 (start options env now hdl appRoot manifest))))))
               # rest))
   \<and> shared (run evs (step (WriteBundle b n) (run evs0 (start options env now hdl appRoot manifest))))
       = shared (run evs0 (start options env now hdl appRoot manifest))"
proof -
  define s where "s = run evs0 (start options env now hdl appRoot manifest)"
  have inv: "interval (shared s) = Some hdl" "\<forall>t\<in>set (timers s). fst t = hdl"
    using run_keeps_handle [of "start options env now hdl appRoot manifest" hdl evs0] start_handle
    by (simp_all add: s_def)
  have a: "exited s = None \<longrightarrow> timers (step (WriteBundle b n) s) = []"
    using writeBundle_clears [of s hdl b n] inv by simp
  have c: "shared (run evs (step (WriteBundle b n) s)) = shared s"
    using inv by (rule writeBundle_freezes)
  have d: "exited s = None \<longrightarrow>
     (\<exists>rest. trace (step (WriteBundle b n) s) = trace s @ ClearInterval (Some hdl)
        # Next (Info (MEMORY_CONSUMPTION_TXT (tmpMaxMemoryConsumption (shared s))
                        (dateMaxMemoryConsumption (shared s)))) # rest)"
    using finalCallback_head [of "opts s" "logEnabled s" "shared s" b n] inv
    by (auto simp: step_WriteBundle trace_perform_all)
  from a c d finalCallback_head [of options env i b n] show ?thesis
    unfolding s_def by blast
qed

text \<open>
  A tick of 150 MB, the hook, and a firing of 300 MB for the cleared timer: the record
  stays at 150.
\<close>

theorem completion_order_witness:
  "exited (run [Fire 3 150000000 7] session0) = None
   \<and> shared (run [Fire 3 150000000 7] session0)
       = \<lparr>interval = Some 3, tmpMaxMemoryConsumption = 150, dateMaxMemoryConsumption = 7\<rparr>
   \<and> timers (step (WriteBundle (Some 20000) (Some 12345678)) (run [Fire 3 150000000 7] session0)) = []
   \<and> shared (run [Fire 3 300000000 9]
        (step (WriteBundle (Some 20000) (Some 12345678)) (run [Fire 3 150000000 7] session0)))
       = \<lparr>interval = Some 3, tmpMaxMemoryConsumption = 150, dateMaxMemoryConsumption = 7\<rparr>"
proof -
  have nf: "\<not> js_gt (toMB 150000000) (Some 1000)" by (simp add: toMB_samples js_gt_def)
  have s1: "step (Fire 3 150000000 7) session0
      = perform_all (fst (tick (logEnabled session0) (Some 100) (Some 1000) 150000000 7 (shared session0)))
          (session0\<lparr>shared := snd (tick (logEnabled session0) (Some 100) (Some 1000) 150000000 7
             (shared session0))\<rparr>)"
    by (rule step_Fire) (simp_all add: session0_facts)
  have e: "exited (step (Fire 3 150000000 7) session0) = None"
    by (simp add: s1 exited_perform_all exit_codes_tick nf session0_facts)
  have sh: "shared (step (Fire 3 150000000 7) session0)
       = \<lparr>interval = Some 3, tmpMaxMemoryConsumption = 150, dateMaxMemoryConsumption = 7\<rparr>"
    by (simp add: s1 tick_not_fatal [OF nf] session0_facts toMB_samples)
  show ?thesis
    using completion_order [of options0 None infos0 "Some 20000" "Some 12345678"
        "[Fire 3 150000000 7]" 0 3 "''/app''" None "[Fire 3 300000000 9]"]
    by (simp add: e sh session0_def [symmetric])
qed

end
